theory Spec2Isabelle
  imports Complex_Main
begin

section \<open>Data model\<close>

text \<open>
  The workflow engine (\<^verbatim>\<open>src/services/workflowEngine.js\<close>), the scheduler
  (\<^verbatim>\<open>src/services/schedulerService.js\<close>) and the Mongoose models they work on.
  Documents are records; a collection that is only looked up by \<^verbatim>\<open>_id\<close> is a
  map, the StepInstance collection, which the scheduler scans, is a list whose
  positions are the \<^verbatim>\<open>_id\<close>s (documents are appended on creation and never
  deleted by the code modelled here). A user id is an ObjectId, written as the
  24 hexadecimal digits in lower case that \<^verbatim>\<open>toHexString()\<close> prints. A string is
  a list of characters with codes below 256. A time is the number of
  milliseconds since the epoch; a \<^verbatim>\<open>Date\<close> object holds a time within the range
  of \<^verbatim>\<open>Date\<close> or is an Invalid Date.
\<close>

type_synonym user_id = string
type_synonym time = int

datatype js_date = ValidDate time | InvalidDate

datatype step_type = UserTask | ServiceTask | Decision | Parallel | Exclusive | Start | End

datatype assignee_type = AssignUser | AssignRole | AssignDepartment | AssignAuto

datatype process_status = Draft | Active | Completed | Cancelled | Suspended

datatype step_status =
  Pending | InProgress | StepCompleted | Skipped | Failed | StepCancelled

datatype role = Admin | Manager | PlainUser

text \<open>An entry of \<^verbatim>\<open>nextSteps\<close>; \<^verbatim>\<open>condition\<close> is optional in the schema.\<close>

record next_step =
  ns_condition :: "string option"
  ns_stepId :: string

text \<open>
  \<^verbatim>\<open>stepSchema\<close> of the ProcessTemplate model. \<^verbatim>\<open>assignees\<close> is an array of
  strings, whatever the assignee type; \<^verbatim>\<open>timeLimit\<close> is a \<^verbatim>\<open>Number\<close> of hours.
\<close>

record step_def =
  sd_stepId :: string
  sd_name :: string
  sd_type :: step_type
  sd_assigneeType :: assignee_type
  sd_assignees :: "string list"
  sd_autoComplete :: bool
  sd_timeLimit :: "real option"
  sd_nextSteps :: "next_step list"

record process_template =
  pt_steps :: "step_def list"
  pt_startStep :: string
  pt_endSteps :: "string list"

record process_instance =
  pi_processTemplateId :: nat
  pi_name :: string
  pi_status :: process_status
  pi_initiatedBy :: user_id
  pi_currentSteps :: "string list"
  pi_startDate :: "time option"
  pi_endDate :: "time option"
  pi_completionPercentage :: nat

record escalation_entry =
  eh_level :: nat
  eh_escalatedTo :: user_id
  eh_escalatedAt :: time
  eh_reason :: string

record step_instance =
  si_processInstanceId :: nat
  si_stepId :: string
  si_name :: string
  si_type :: step_type
  si_status :: step_status
  si_assignedTo :: "user_id option"
  si_assignedRole :: "string option"
  si_assignedDepartment :: "string option"
  si_startDate :: "time option"
  si_endDate :: "time option"
  si_dueDate :: "time option"
  si_formData :: "string \<rightharpoonup> string"
  si_escalated :: bool
  si_escalationLevel :: nat
  si_escalationHistory :: "escalation_entry list"
  si_completedBy :: "user_id option"
  si_variables :: "string \<rightharpoonup> string"

record user =
  u_id :: user_id
  u_role :: role
  u_isActive :: bool

text \<open>
  A ProcessHistory document. The schema declares \<^verbatim>\<open>performedBy\<close> as
  \<^verbatim>\<open>required: true\<close>; the engine passes \<^verbatim>\<open>null\<close> in one place, so the
  field is optional here and the check is made by \<open>ProcessHistory_create\<close>.
  The same holds for \<^verbatim>\<open>userId\<close> of a Notification document.
\<close>

record history_entry =
  h_processInstanceId :: nat
  h_stepInstanceId :: "nat option"
  h_action :: string
  h_performedBy :: "user_id option"
  h_fromStatus :: "string option"
  h_toStatus :: "string option"

record notification =
  n_userId :: "user_id option"
  n_type :: string
  n_title :: string
  n_message :: string
  n_relatedProcess :: "nat option"
  n_relatedStep :: "nat option"
  n_priority :: string

text \<open>
  What the code can throw: \<^verbatim>\<open>AppError(message, statusCode)\<close>, a plain
  \<^verbatim>\<open>Error(message)\<close>, the TypeError of a property read on
  \<^verbatim>\<open>null\<close>/\<^verbatim>\<open>undefined\<close>, a Mongoose validation error, and the failure of
  the write of a notification document.
\<close>

datatype error =
  AppError string nat
  | PlainError string
  | TypeError
  | ValidationError string
  | NotificationFailure

datatype outcome = Returned | Threw error

text \<open>
  The database and the environment. \<open>notificationFails\<close> says for which
  notification documents the write fails. \<open>hoursFromNow now h\<close> is the \<^verbatim>\<open>Date\<close>
  that \<^verbatim>\<open>d.setHours(d.getHours() + h)\<close> leaves in \<^verbatim>\<open>d = new Date()\<close> read at
  \<open>now\<close>: \<^verbatim>\<open>setHours\<close> works on the hours of the clock of the host's time zone,
  and leaves an Invalid Date when the result is out of the range of \<^verbatim>\<open>Date\<close>.
\<close>

record store =
  templates :: "nat \<rightharpoonup> process_template"
  processes :: "nat \<rightharpoonup> process_instance"
  steps :: "step_instance list"
  users :: "user list"
  history :: "history_entry list"
  notifications :: "notification list"
  notificationFails :: "notification \<Rightarrow> bool"
  hoursFromNow :: "time \<Rightarrow> real \<Rightarrow> js_date"

section \<open>Values of the host: ObjectIds, trimmed strings, doubles\<close>

text \<open>
  The cast of a string to an ObjectId by Mongoose 8 (\<^verbatim>\<open>"mongoose": "^8.4.0"\<close> in
  \<^verbatim>\<open>package.json\<close>), which hands the string to \<^verbatim>\<open>new ObjectId(string)\<close>: exactly
  the strings of 24 hexadecimal digits are accepted, and the digits are read
  without regard to case.
\<close>

definition isHexDigit :: "char \<Rightarrow> bool" where
  "isHexDigit c = (c \<in> set ''0123456789abcdefABCDEF'')"

definition hexLower :: "char \<Rightarrow> char" where
  "hexLower c =
     (if c = CHR ''A'' then CHR ''a'' else if c = CHR ''B'' then CHR ''b''
      else if c = CHR ''C'' then CHR ''c'' else if c = CHR ''D'' then CHR ''d''
      else if c = CHR ''E'' then CHR ''e'' else if c = CHR ''F'' then CHR ''f'' else c)"

definition castObjectId :: "string \<Rightarrow> user_id option" where
  "castObjectId str =
     (if length str = 24 \<and> list_all isHexDigit str then Some (map hexLower str) else None)"

text \<open>
  \<^verbatim>\<open>String.prototype.trim\<close>, the setter of a schema path with \<^verbatim>\<open>trim: true\<close>. The
  white space and line terminators of JavaScript with a code below 256 are
  tab, line feed, vertical tab, form feed, carriage return, space and
  no-break space.
\<close>

definition isWhiteSpace :: "char \<Rightarrow> bool" where
  "isWhiteSpace c =
     (c \<in> set [CHR 0x09, CHR 0x0A, CHR 0x0B, CHR 0x0C, CHR 0x0D, CHR 0x20, CHR 0xA0])"

definition String_trim :: "string \<Rightarrow> string" where
  "String_trim str = rev (dropWhile isWhiteSpace (rev (dropWhile isWhiteSpace str)))"

text \<open>
  IEEE 754 binary64 arithmetic on the numbers that \<^verbatim>\<open>updateCompletionPercentage\<close>
  meets. A finite double that is not negative is the fraction
  \<open>fst x / snd x\<close>, with a power of two for \<open>snd x\<close>. \<open>nearestDouble a b\<close> is
  the double nearest to the quotient \<open>a / b\<close> of two natural numbers, ties to
  the even significand: the significand has 53 bits, so the quotient is scaled
  by the power of two that brings it into \<open>[2\<^sup>5\<^sup>2, 2\<^sup>5\<^sup>3)\<close> and rounded to an
  integer there. The quotients that occur lie far inside the range of the
  normal doubles (the operands are counts of documents and the constant 100).
\<close>

type_synonym double = "nat \<times> nat"

text \<open>The least \<open>s\<close> with \<open>b \<le> a * 2\<^sup>s\<close>, for \<open>0 < a < b\<close>.\<close>

function binaryExponentBelow :: "nat \<Rightarrow> nat \<Rightarrow> nat" where
  "binaryExponentBelow a b =
     (if a = 0 \<or> b \<le> a then 0 else Suc (binaryExponentBelow (2 * a) b))"
  by pat_completeness auto
termination
  by (relation "measure (\<lambda>(a, b). b - a)") auto

text \<open>The greatest \<open>e\<close> with \<open>b * 2\<^sup>e \<le> a\<close>, for \<open>0 < b \<le> a\<close>.\<close>

function binaryExponentAbove :: "nat \<Rightarrow> nat \<Rightarrow> nat" where
  "binaryExponentAbove a b =
     (if b = 0 \<or> a < 2 * b then 0 else Suc (binaryExponentAbove a (2 * b)))"
  by pat_completeness auto
termination
  by (relation "measure (\<lambda>(a, b). a - b)") auto

declare binaryExponentBelow.simps [simp del]

declare binaryExponentAbove.simps [simp del]

text \<open>The integer nearest to \<open>a / b\<close>, ties to the even one.\<close>

definition roundHalfEven :: "nat \<Rightarrow> nat \<Rightarrow> nat" where
  "roundHalfEven a b =
     (let q = a div b; r = a mod b
      in if 2 * r < b then q else if b < 2 * r then q + 1 else if even q then q else q + 1)"

definition nearestDouble :: "nat \<Rightarrow> nat \<Rightarrow> double" where
  "nearestDouble a b =
     (if a = 0 then (0, 1)
      else if a < b
      then (let s = binaryExponentBelow a b
            in (roundHalfEven (a * 2 ^ (s + 52)) b, 2 ^ (s + 52)))
      else (let e = binaryExponentAbove a b
            in if e \<le> 52 then (roundHalfEven (a * 2 ^ (52 - e)) b, 2 ^ (52 - e))
               else (roundHalfEven a (b * 2 ^ (e - 52)) * 2 ^ (e - 52), 1)))"

text \<open>
  \<^verbatim>\<open>a / b\<close> on two counts, \<^verbatim>\<open>x * k\<close> on a double and an integer constant, and
  \<^verbatim>\<open>Math.round(x)\<close>, which is the floor of \<open>x + 1/2\<close> taken exactly.
\<close>

definition divideNumbers :: "nat \<Rightarrow> nat \<Rightarrow> double" where
  "divideNumbers a b = nearestDouble a b"

definition timesNumber :: "double \<Rightarrow> nat \<Rightarrow> double" where
  "timesNumber x k = nearestDouble (fst x * k) (snd x)"

definition Math_round :: "double \<Rightarrow> nat" where
  "Math_round x = (2 * fst x + snd x) div (2 * snd x)"

section \<open>Routing resolver\<close>

text \<open>JavaScript truthiness of an optional string: absent and \<^verbatim>\<open>""\<close> are falsy.\<close>

definition truthy :: "string option \<Rightarrow> bool" where
  "truthy v = (case v of None \<Rightarrow> False | Some s \<Rightarrow> s \<noteq> [])"

text \<open>\<^verbatim>\<open>evaluateCondition(condition, stepInstance, decision)\<close>; nothing in its body throws.\<close>

definition evaluateCondition :: "string \<Rightarrow> step_instance \<Rightarrow> string option \<Rightarrow> bool" where
  "evaluateCondition condition stepInstance decision =
     (if condition = ''true'' \<or> condition = '''' then True
      else if truthy decision \<and> Some condition = decision then True
      else False)"

text \<open>The \<^verbatim>\<open>for\<close> loop of \<^verbatim>\<open>determineNextSteps\<close>, pushing onto \<^verbatim>\<open>nextSteps\<close>.\<close>

fun collectNextSteps ::
  "next_step list \<Rightarrow> step_instance \<Rightarrow> string option \<Rightarrow> string list \<Rightarrow> string list" where
  "collectNextSteps [] stepInstance decision acc = acc"
| "collectNextSteps (nextStep # rest) stepInstance decision acc =
     collectNextSteps rest stepInstance decision
       (if \<not> truthy (ns_condition nextStep)
           \<or> evaluateCondition (the (ns_condition nextStep)) stepInstance decision
        then acc @ [ns_stepId nextStep] else acc)"

text \<open>
  \<^verbatim>\<open>determineNextSteps(templateStep, stepInstance, decision)\<close>. An absent
  \<^verbatim>\<open>nextSteps\<close> array is the empty list.
\<close>

definition determineNextSteps ::
  "step_def \<Rightarrow> step_instance \<Rightarrow> string option \<Rightarrow> string list" where
  "determineNextSteps templateStep stepInstance decision =
     (if sd_nextSteps templateStep = [] then []
      else
        let nextSteps = collectNextSteps (sd_nextSteps templateStep) stepInstance decision [];
            nextSteps1 =
              (if nextSteps = [] \<and> sd_type templateStep = Decision \<and> truthy decision
               then (case find (\<lambda>ns. ns_condition ns = decision) (sd_nextSteps templateStep) of
                       Some decisionStep \<Rightarrow> nextSteps @ [ns_stepId decisionStep]
                     | None \<Rightarrow> nextSteps)
               else nextSteps)
        in (if nextSteps1 = []
            then (case sd_nextSteps templateStep of
                    first # _ \<Rightarrow> nextSteps1 @ [ns_stepId first]
                  | [] \<Rightarrow> nextSteps1)
            else nextSteps1))"

text \<open>The same function with the decision-step branch (source lines 180 to 186) deleted.\<close>

definition determineNextSteps_noDecisionBranch ::
  "step_def \<Rightarrow> step_instance \<Rightarrow> string option \<Rightarrow> string list" where
  "determineNextSteps_noDecisionBranch templateStep stepInstance decision =
     (if sd_nextSteps templateStep = [] then []
      else
        let nextSteps = collectNextSteps (sd_nextSteps templateStep) stepInstance decision []
        in (if nextSteps = []
            then (case sd_nextSteps templateStep of
                    first # _ \<Rightarrow> nextSteps @ [ns_stepId first]
                  | [] \<Rightarrow> nextSteps)
            else nextSteps))"

text \<open>
  The routing algorithm in the words of the specification: the four stages, in
  their order of precedence.
\<close>

definition spec_conditionHolds :: "string option \<Rightarrow> string option \<Rightarrow> bool" where
  "spec_conditionHolds condition decision =
     (condition = None \<or> condition = Some '''' \<or> condition = Some ''true''
      \<or> (decision \<noteq> None \<and> condition = decision))"

definition spec_determineNextSteps ::
  "step_def \<Rightarrow> string option \<Rightarrow> string list" where
  "spec_determineNextSteps stepDef decision =
     (let holding = map ns_stepId
            (filter (\<lambda>ns. spec_conditionHolds (ns_condition ns) decision) (sd_nextSteps stepDef));
          literal = filter (\<lambda>ns. ns_condition ns = decision) (sd_nextSteps stepDef)
      in if holding \<noteq> [] then holding
         else if sd_type stepDef = Decision \<and> decision \<noteq> None \<and> literal \<noteq> []
           then [ns_stepId (hd literal)]
         else if sd_nextSteps stepDef \<noteq> [] then [ns_stepId (hd (sd_nextSteps stepDef))]
         else [])"

text \<open>The decision step of the specification's example.\<close>

definition approveRejectStep :: step_def where
  "approveRejectStep =
     \<lparr>sd_stepId = ''review'', sd_name = ''Review'', sd_type = Decision,
      sd_assigneeType = AssignUser, sd_assignees = [], sd_autoComplete = False,
      sd_timeLimit = None,
      sd_nextSteps = [\<lparr>ns_condition = Some ''approve'', ns_stepId = ''A''\<rparr>,
                      \<lparr>ns_condition = Some ''reject'', ns_stepId = ''B''\<rparr>]\<rparr>"

section \<open>Collections\<close>

text \<open>
  \<^verbatim>\<open>ProcessHistory.create(doc)\<close> validates the document against the schema
  (\<^verbatim>\<open>performedBy: { required: true }\<close> in \<^verbatim>\<open>models/ProcessHistory.js\<close>) and
  throws a validation error for a \<^verbatim>\<open>null\<close> value.
\<close>

definition ProcessHistory_create :: "history_entry \<Rightarrow> store \<Rightarrow> error + store" where
  "ProcessHistory_create entry s =
     (if h_performedBy entry = None then Inl (ValidationError ''performedBy is required'')
      else Inr (s\<lparr>history := history s @ [entry]\<rparr>))"

text \<open>
  \<^verbatim>\<open>Notification.create(doc)\<close> of the engine and
  \<^verbatim>\<open>notificationService.createNotification(doc)\<close> of the scheduler: the write
  fails on a missing \<^verbatim>\<open>userId\<close> and whenever the environment says so, and
  then nothing is stored. The e-mail that the service sends after the write
  cannot make it fail: \<^verbatim>\<open>sendEmailNotification\<close> catches its own errors.
\<close>

definition Notification_create :: "notification \<Rightarrow> store \<Rightarrow> error + store" where
  "Notification_create n s =
     (if n_userId n = None then Inl (ValidationError ''User ID is required'')
      else if notificationFails s n then Inl NotificationFailure
      else Inr (s\<lparr>notifications := notifications s @ [n]\<rparr>))"

text \<open>\<^verbatim>\<open>StepInstance.findById\<close>, the first \<^verbatim>\<open>save()\<close> of a new document, a later \<^verbatim>\<open>save()\<close>.\<close>

definition StepInstance_findById :: "nat \<Rightarrow> store \<Rightarrow> step_instance option" where
  "StepInstance_findById i s = (if i < length (steps s) then Some (steps s ! i) else None)"

definition StepInstance_insert :: "step_instance \<Rightarrow> store \<Rightarrow> nat \<times> store" where
  "StepInstance_insert st s = (length (steps s), s\<lparr>steps := steps s @ [st]\<rparr>)"

definition StepInstance_save :: "nat \<Rightarrow> step_instance \<Rightarrow> store \<Rightarrow> store" where
  "StepInstance_save i st s = s\<lparr>steps := (steps s)[i := st]\<rparr>"

text \<open>\<^verbatim>\<open>StepInstance.find(query)\<close>: the matching documents with their ids, in insertion order.\<close>

definition StepInstance_find :: "(step_instance \<Rightarrow> bool) \<Rightarrow> store \<Rightarrow> (nat \<times> step_instance) list" where
  "StepInstance_find query s = filter (\<lambda>doc. query (snd doc)) (enumerate 0 (steps s))"

definition ProcessInstance_save :: "nat \<Rightarrow> process_instance \<Rightarrow> store \<Rightarrow> store" where
  "ProcessInstance_save pid p s = s\<lparr>processes := (processes s)(pid \<mapsto> p)\<rparr>"

text \<open>A name between double quotes, as the message templates of the source put it.\<close>

definition quoted :: "string \<Rightarrow> string" where
  "quoted x = CHR 0x22 # x @ [CHR 0x22]"

fun step_status_name :: "step_status \<Rightarrow> string" where
  "step_status_name Pending = ''pending''"
| "step_status_name InProgress = ''in_progress''"
| "step_status_name StepCompleted = ''completed''"
| "step_status_name Skipped = ''skipped''"
| "step_status_name Failed = ''failed''"
| "step_status_name StepCancelled = ''cancelled''"

section \<open>Workflow engine\<close>

text \<open>\<^verbatim>\<open>sendTaskNotification(stepInstance)\<close>: the failure is logged and swallowed.\<close>

definition sendTaskNotification :: "nat \<Rightarrow> step_instance \<Rightarrow> store \<Rightarrow> store" where
  "sendTaskNotification stepInstanceId stepInstance s =
     (case Notification_create
             \<lparr>n_userId = si_assignedTo stepInstance, n_type = ''task_assigned'',
              n_title = ''New Task Assigned'',
              n_message = ''You have been assigned a new task: '' @ si_name stepInstance,
              n_relatedProcess = Some (si_processInstanceId stepInstance),
              n_relatedStep = Some stepInstanceId, n_priority = ''medium''\<rparr> s of
        Inl e \<Rightarrow> s
      | Inr s' \<Rightarrow> s')"

text \<open>
  \<^verbatim>\<open>new StepInstance({...})\<close> with the defaults of the schema; \<^verbatim>\<open>stepId\<close> and
  \<^verbatim>\<open>name\<close> have \<^verbatim>\<open>trim: true\<close>.
\<close>

definition newStepInstance :: "nat \<Rightarrow> step_def \<Rightarrow> step_instance" where
  "newStepInstance processInstanceId templateStep =
     \<lparr>si_processInstanceId = processInstanceId,
      si_stepId = String_trim (sd_stepId templateStep),
      si_name = String_trim (sd_name templateStep),
      si_type = sd_type templateStep, si_status = Pending,
      si_assignedTo = None, si_assignedRole = None, si_assignedDepartment = None,
      si_startDate = None, si_endDate = None, si_dueDate = None, si_formData = Map.empty,
      si_escalated = False, si_escalationLevel = 0, si_escalationHistory = [],
      si_completedBy = None, si_variables = Map.empty\<rparr>"

definition firstAssignee :: "step_def \<Rightarrow> string option" where
  "firstAssignee templateStep =
     (case sd_assignees templateStep of [] \<Rightarrow> None | a # _ \<Rightarrow> Some a)"

text \<open>
  The assignment by assignee type. \<^verbatim>\<open>assignedTo\<close> is an ObjectId path: the string
  is cast, and a string that is no ObjectId leaves the path unset and invalid
  (see \<open>StepInstance_invalidPaths\<close>). \<^verbatim>\<open>assignedRole\<close> and
  \<^verbatim>\<open>assignedDepartment\<close> are strings with \<^verbatim>\<open>trim: true\<close>.
\<close>

definition setAssignment :: "step_def \<Rightarrow> step_instance \<Rightarrow> step_instance" where
  "setAssignment templateStep stepInstance =
     (if sd_assigneeType templateStep = AssignUser \<and> sd_assignees templateStep \<noteq> []
      then stepInstance\<lparr>si_assignedTo := Option.bind (firstAssignee templateStep) castObjectId\<rparr>
      else if sd_assigneeType templateStep = AssignRole
      then stepInstance\<lparr>si_assignedRole := map_option String_trim (firstAssignee templateStep)\<rparr>
      else if sd_assigneeType templateStep = AssignDepartment
      then stepInstance\<lparr>si_assignedDepartment :=
             map_option String_trim (firstAssignee templateStep)\<rparr>
      else stepInstance)"

text \<open>
  The due date: \<^verbatim>\<open>if (templateStep.timeLimit)\<close> skips an absent and a zero time
  limit; otherwise \<^verbatim>\<open>dueDate.setHours(dueDate.getHours() + templateStep.timeLimit)\<close>
  on \<^verbatim>\<open>new Date()\<close>. An Invalid Date does not cast to the \<^verbatim>\<open>Date\<close> path
  \<^verbatim>\<open>dueDate\<close>: the path stays unset and is invalid.
\<close>

definition setDueDate ::
  "(time \<Rightarrow> real \<Rightarrow> js_date) \<Rightarrow> step_def \<Rightarrow> time \<Rightarrow> step_instance \<Rightarrow> step_instance" where
  "setDueDate setHours templateStep now stepInstance =
     (case sd_timeLimit templateStep of
        None \<Rightarrow> stepInstance
      | Some timeLimit \<Rightarrow>
          if timeLimit = 0 then stepInstance
          else (case setHours now timeLimit of
                  ValidDate dueDate \<Rightarrow> stepInstance\<lparr>si_dueDate := Some dueDate\<rparr>
                | InvalidDate \<Rightarrow> stepInstance))"

definition autoCompleteStep :: "step_def \<Rightarrow> user_id \<Rightarrow> time \<Rightarrow> step_instance \<Rightarrow> step_instance" where
  "autoCompleteStep templateStep userId now stepInstance =
     (if sd_type templateStep = ServiceTask \<or> sd_autoComplete templateStep
      then stepInstance\<lparr>si_status := StepCompleted, si_startDate := Some now,
             si_endDate := Some now, si_completedBy := Some userId\<rparr>
      else stepInstance)"

text \<open>
  The paths of the new step instance that do not validate when
  \<^verbatim>\<open>stepInstance.save()\<close> runs the validation of the StepInstance schema:
  \<^verbatim>\<open>stepId\<close> and \<^verbatim>\<open>name\<close> are \<^verbatim>\<open>required\<close> and must not be empty after the trim,
  and the casts of \<^verbatim>\<open>assignedTo\<close> and \<^verbatim>\<open>dueDate\<close> must have succeeded. The other
  paths that \<^verbatim>\<open>createStepInstance\<close> sets validate for every template step: the
  \<^verbatim>\<open>type\<close> has the same \<^verbatim>\<open>enum\<close> in both schemas, the status is \<^verbatim>\<open>pending\<close> or
  \<^verbatim>\<open>completed\<close>, and \<^verbatim>\<open>processInstanceId\<close>, \<^verbatim>\<open>completedBy\<close> and the two dates of
  an auto-completed step are an ObjectId and valid dates.
\<close>

definition StepInstance_invalidPaths ::
  "(time \<Rightarrow> real \<Rightarrow> js_date) \<Rightarrow> step_def \<Rightarrow> time \<Rightarrow> string list" where
  "StepInstance_invalidPaths setHours templateStep now =
     (if String_trim (sd_stepId templateStep) = [] then [''stepId''] else [])
     @ (if String_trim (sd_name templateStep) = [] then [''name''] else [])
     @ (if sd_assigneeType templateStep = AssignUser \<and> sd_assignees templateStep \<noteq> []
           \<and> Option.bind (firstAssignee templateStep) castObjectId = None
        then [''assignedTo''] else [])
     @ (case sd_timeLimit templateStep of
          None \<Rightarrow> []
        | Some timeLimit \<Rightarrow>
            if timeLimit \<noteq> 0 \<and> setHours now timeLimit = InvalidDate then [''dueDate''] else [])"

text \<open>
  \<^verbatim>\<open>createStepInstance(processInstance, templateStep, userId)\<close>; of the process
  instance only the \<^verbatim>\<open>_id\<close> is read. When a path is invalid,
  \<^verbatim>\<open>stepInstance.save()\<close> rejects with a Mongoose validation error before anything
  is written, and the \<^verbatim>\<open>catch\<close> logs it and throws it again.
\<close>

definition createStepInstance ::
  "nat \<Rightarrow> step_def \<Rightarrow> user_id \<Rightarrow> time \<Rightarrow> store \<Rightarrow> outcome \<times> store" where
  "createStepInstance processInstanceId templateStep userId now s =
     (let stepInstance =
            autoCompleteStep templateStep userId now
              (setDueDate (hoursFromNow s) templateStep now
                (setAssignment templateStep (newStepInstance processInstanceId templateStep)))
      in if StepInstance_invalidPaths (hoursFromNow s) templateStep now \<noteq> []
         then (Threw (ValidationError ''StepInstance validation failed''), s)
         else
           (let (stepInstanceId, s1) = StepInstance_insert stepInstance s
            in case ProcessHistory_create
                      \<lparr>h_processInstanceId = processInstanceId,
                       h_stepInstanceId = Some stepInstanceId,
                       h_action = ''step_created'', h_performedBy = Some userId,
                       h_fromStatus = None,
                       h_toStatus = Some (step_status_name (si_status stepInstance))\<rparr> s1 of
                 Inl e \<Rightarrow> (Threw e, s1)
               | Inr s2 \<Rightarrow>
                   if sd_type templateStep = UserTask \<and> si_assignedTo stepInstance \<noteq> None
                   then (Returned, sendTaskNotification stepInstanceId stepInstance s2)
                   else (Returned, s2)))"

text \<open>\<^verbatim>\<open>completeProcess(processInstance, userId)\<close>; every error is logged and thrown again.\<close>

definition completeProcess ::
  "nat \<Rightarrow> process_instance \<Rightarrow> user_id \<Rightarrow> time \<Rightarrow> store \<Rightarrow> outcome \<times> store" where
  "completeProcess processInstanceId processInstance userId now s =
     (let processInstance1 =
            processInstance\<lparr>pi_status := Completed, pi_endDate := Some now,
              pi_completionPercentage := 100, pi_currentSteps := []\<rparr>;
          s1 = ProcessInstance_save processInstanceId processInstance1 s
      in case ProcessHistory_create
                \<lparr>h_processInstanceId = processInstanceId, h_stepInstanceId = None,
                 h_action = ''process_completed'', h_performedBy = Some userId,
                 h_fromStatus = Some ''active'', h_toStatus = Some ''completed''\<rparr> s1 of
           Inl e \<Rightarrow> (Threw e, s1)
         | Inr s2 \<Rightarrow>
             (case Notification_create
                     \<lparr>n_userId = Some (pi_initiatedBy processInstance1),
                      n_type = ''process_completed'', n_title = ''Process Completed'',
                      n_message = ''Process '' @ quoted (pi_name processInstance1)
                                  @ '' has been completed successfully.'',
                      n_relatedProcess = Some processInstanceId, n_relatedStep = None,
                      n_priority = ''medium''\<rparr> s2 of
                Inl e \<Rightarrow> (Threw e, s2)
              | Inr s3 \<Rightarrow> (Returned, s3)))"

text \<open>
  \<^verbatim>\<open>processInstance.updateCompletionPercentage()\<close>, which also saves:
  \<^verbatim>\<open>Math.round((completedSteps / totalSteps) * 100)\<close> in the doubles of JavaScript.
\<close>

definition updateCompletionPercentage ::
  "nat \<Rightarrow> process_instance \<Rightarrow> store \<Rightarrow> process_instance \<times> store" where
  "updateCompletionPercentage processInstanceId processInstance s =
     (let totalSteps =
            length (filter (\<lambda>st. si_processInstanceId st = processInstanceId) (steps s));
          completedSteps =
            length (filter (\<lambda>st. si_processInstanceId st = processInstanceId
                                \<and> si_status st = StepCompleted) (steps s));
          processInstance1 =
            processInstance\<lparr>pi_completionPercentage :=
              (if totalSteps > 0
               then Math_round (timesNumber (divideNumbers completedSteps totalSteps) 100)
               else 0)\<rparr>
      in (processInstance1, ProcessInstance_save processInstanceId processInstance1 s))"

text \<open>The two counts of the specification's formula for the percentage.\<close>

definition totalStepCount :: "nat \<Rightarrow> store \<Rightarrow> nat" where
  "totalStepCount processInstanceId s =
     length (filter (\<lambda>st. si_processInstanceId st = processInstanceId) (steps s))"

definition completedStepCount :: "nat \<Rightarrow> store \<Rightarrow> nat" where
  "completedStepCount processInstanceId s =
     length (filter (\<lambda>st. si_processInstanceId st = processInstanceId
                         \<and> si_status st = StepCompleted) (steps s))"

text \<open>
  The loop of \<^verbatim>\<open>processStepCompletion\<close> that creates the next step instances and
  pushes their ids onto \<^verbatim>\<open>currentSteps\<close> of the in-memory process instance; the
  elements of \<^verbatim>\<open>currentSteps\<close> have \<^verbatim>\<open>trim: true\<close>. An error of
  \<^verbatim>\<open>createStepInstance\<close> leaves the loop.
\<close>

fun createNextSteps ::
  "string list \<Rightarrow> process_template \<Rightarrow> nat \<Rightarrow> process_instance \<Rightarrow> user_id \<Rightarrow> time \<Rightarrow> store
     \<Rightarrow> outcome \<times> process_instance \<times> store" where
  "createNextSteps [] template processInstanceId processInstance userId now s =
     (Returned, processInstance, s)"
| "createNextSteps (nextStepId # rest) template processInstanceId processInstance userId now s =
     (case find (\<lambda>sd. sd_stepId sd = nextStepId) (pt_steps template) of
        None \<Rightarrow> createNextSteps rest template processInstanceId processInstance userId now s
      | Some nextTemplateStep \<Rightarrow>
          (case createStepInstance processInstanceId nextTemplateStep userId now s of
             (Threw e, s1) \<Rightarrow> (Threw e, processInstance, s1)
           | (Returned, s1) \<Rightarrow>
               createNextSteps rest template processInstanceId
                 (processInstance\<lparr>pi_currentSteps :=
                    pi_currentSteps processInstance @ [String_trim nextStepId]\<rparr>)
                 userId now s1))"

text \<open>
  Every step instance that the loop is to create validates: for each next step
  id that the template defines, no path of the new step instance is invalid.
\<close>

definition nextStepsValidate ::
  "(time \<Rightarrow> real \<Rightarrow> js_date) \<Rightarrow> process_template \<Rightarrow> string list \<Rightarrow> time \<Rightarrow> bool" where
  "nextStepsValidate setHours template nextStepIds now =
     list_all
       (\<lambda>nextStepId.
          case find (\<lambda>sd. sd_stepId sd = nextStepId) (pt_steps template) of
            None \<Rightarrow> True
          | Some nextTemplateStep \<Rightarrow>
              StepInstance_invalidPaths setHours nextTemplateStep now = [])
       nextStepIds"

text \<open>
  \<^verbatim>\<open>processStepCompletion(stepInstance, userId)\<close>. The populated
  \<^verbatim>\<open>stepInstance.processInstanceId\<close> is the in-memory process instance with its id.
  A missing template, and a template without the step, end in the TypeError of
  reading a property of \<^verbatim>\<open>null\<close>/\<^verbatim>\<open>undefined\<close>. The assignment to
  \<^verbatim>\<open>currentSteps\<close> casts the elements, which trims them.
\<close>

definition processStepCompletion ::
  "step_instance \<Rightarrow> nat \<Rightarrow> process_instance \<Rightarrow> user_id \<Rightarrow> time \<Rightarrow> store \<Rightarrow> outcome \<times> store" where
  "processStepCompletion stepInstance processInstanceId processInstance userId now s =
     (case templates s (pi_processTemplateId processInstance) of
        None \<Rightarrow> (Threw TypeError, s)
      | Some template \<Rightarrow>
          (let processInstance1 =
                 processInstance\<lparr>pi_currentSteps :=
                   map String_trim
                     (filter (\<lambda>stepId. stepId \<noteq> si_stepId stepInstance)
                        (pi_currentSteps processInstance))\<rparr>
           in case find (\<lambda>sd. sd_stepId sd = si_stepId stepInstance) (pt_steps template) of
                None \<Rightarrow> (Threw TypeError, s)
              | Some templateStep \<Rightarrow>
                  (let nextStepIds =
                         determineNextSteps templateStep stepInstance
                           (si_variables stepInstance ''decision'')
                   in case createNextSteps nextStepIds template processInstanceId
                             processInstance1 userId now s of
                        (Threw e, processInstance2, s1) \<Rightarrow> (Threw e, s1)
                      | (Returned, processInstance2, s1) \<Rightarrow>
                          if nextStepIds = []
                             \<or> list_all (\<lambda>stepId. stepId \<in> set (pt_endSteps template)) nextStepIds
                          then completeProcess processInstanceId processInstance2 userId now s1
                          else
                            (let (processInstance3, s2) =
                                   updateCompletionPercentage processInstanceId processInstance2 s1
                             in (Returned,
                                 ProcessInstance_save processInstanceId processInstance3 s2)))))"

text \<open>\<^verbatim>\<open>stepInstance.canComplete(userId)\<close> of the StepInstance model.\<close>

definition canComplete :: "step_instance \<Rightarrow> user_id \<Rightarrow> bool" where
  "canComplete stepInstance userId =
     (if si_status stepInstance \<noteq> InProgress then False
      else if si_assignedTo stepInstance \<noteq> None \<and> si_assignedTo stepInstance \<noteq> Some userId
      then False
      else True)"

text \<open>
  The updates that \<^verbatim>\<open>completeStep\<close> makes to the step instance before it
  saves it: \<^verbatim>\<open>{ ...stepInstance.formData, ...formData }\<close> lets the new entries
  win, and a truthy decision is stored under \<^verbatim>\<open>variables.decision\<close>.
\<close>

definition completedStep ::
  "step_instance \<Rightarrow> user_id \<Rightarrow> (string \<rightharpoonup> string) \<Rightarrow> string option \<Rightarrow> time
     \<Rightarrow> step_instance" where
  "completedStep stepInstance userId formData decision now =
     (let stepInstance1 =
            stepInstance\<lparr>si_status := StepCompleted, si_endDate := Some now,
              si_completedBy := Some userId,
              si_formData := si_formData stepInstance ++ formData\<rparr>
      in if truthy decision
         then stepInstance1\<lparr>si_variables :=
                (si_variables stepInstance1)(''decision'' := decision)\<rparr>
         else stepInstance1)"

text \<open>
  \<^verbatim>\<open>completeStep(stepInstanceId, userId, formData = {}, decision = null)\<close>. The
  outcome comes with the database as the call leaves it, since the step is saved
  before the later checks.
\<close>

definition completeStep ::
  "nat \<Rightarrow> user_id \<Rightarrow> (string \<rightharpoonup> string) \<Rightarrow> string option \<Rightarrow> time \<Rightarrow> store
     \<Rightarrow> outcome \<times> store" where
  "completeStep stepInstanceId userId formData decision now s =
     (case StepInstance_findById stepInstanceId s of
        None \<Rightarrow> (Threw (AppError ''Step instance not found'' 404), s)
      | Some stepInstance \<Rightarrow>
          (case processes s (si_processInstanceId stepInstance) of
             None \<Rightarrow> (Threw TypeError, s)
           | Some processInstance \<Rightarrow>
               (case templates s (pi_processTemplateId processInstance) of
                  None \<Rightarrow> (Threw (AppError ''Process template not found'' 404), s)
                | Some template \<Rightarrow>
                    if \<not> canComplete stepInstance userId
                    then (Threw (AppError ''You are not authorized to complete this step'' 403), s)
                    else
                      (let stepInstance2 = completedStep stepInstance userId formData decision now;
                           s1 = StepInstance_save stepInstanceId stepInstance2 s
                       in case ProcessHistory_create
                                 \<lparr>h_processInstanceId = si_processInstanceId stepInstance,
                                  h_stepInstanceId = Some stepInstanceId,
                                  h_action = ''step_completed'', h_performedBy = Some userId,
                                  h_fromStatus = Some ''in_progress'',
                                  h_toStatus = Some ''completed''\<rparr> s1 of
                            Inl e \<Rightarrow> (Threw e, s1)
                          | Inr s2 \<Rightarrow>
                              (case find (\<lambda>sd. sd_stepId sd = si_stepId stepInstance2)
                                      (pt_steps template) of
                                 None \<Rightarrow> (Threw (AppError ''Template step not found'' 400), s2)
                               | Some templateStep \<Rightarrow>
                                   processStepCompletion stepInstance2
                                     (si_processInstanceId stepInstance) processInstance
                                     userId now s2)))))"

text \<open>
  \<^verbatim>\<open>startProcess(processInstanceId, userId)\<close>. \<^verbatim>\<open>populate\<close> leaves \<^verbatim>\<open>null\<close>
  for a template that does not exist, and \<^verbatim>\<open>template.steps\<close> then throws a
  TypeError. The status and start date are set in memory before the start step
  is looked up and reach the database only with the \<^verbatim>\<open>save()\<close>.
\<close>

definition startProcess :: "nat \<Rightarrow> user_id \<Rightarrow> time \<Rightarrow> store \<Rightarrow> outcome \<times> store" where
  "startProcess processInstanceId userId now s =
     (case processes s processInstanceId of
        None \<Rightarrow> (Threw (AppError ''Process instance not found'' 404), s)
      | Some instance \<Rightarrow>
          if pi_status instance \<noteq> Draft
          then (Threw (AppError ''Process can only be started from draft status'' 400), s)
          else
            (case templates s (pi_processTemplateId instance) of
               None \<Rightarrow> (Threw TypeError, s)
             | Some template \<Rightarrow>
                 (let instance1 = instance\<lparr>pi_status := Active, pi_startDate := Some now\<rparr>
                  in case find (\<lambda>sd. sd_stepId sd = pt_startStep template) (pt_steps template) of
                       None \<Rightarrow> (Threw (AppError ''Start step not found in template'' 400), s)
                     | Some startStep \<Rightarrow>
                         (case createStepInstance processInstanceId startStep userId now s of
                            (Threw e, s1) \<Rightarrow> (Threw e, s1)
                          | (Returned, s1) \<Rightarrow>
                              (let instance2 =
                                     instance1\<lparr>pi_currentSteps :=
                                       [String_trim (sd_stepId startStep)]\<rparr>;
                                   s2 = ProcessInstance_save processInstanceId instance2 s1
                               in case ProcessHistory_create
                                         \<lparr>h_processInstanceId = processInstanceId,
                                          h_stepInstanceId = None,
                                          h_action = ''process_started'',
                                          h_performedBy = Some userId,
                                          h_fromStatus = Some ''draft'',
                                          h_toStatus = Some ''active''\<rparr> s2 of
                                    Inl e \<Rightarrow> (Threw e, s2)
                                  | Inr s3 \<Rightarrow> (Returned, s3))))))"

section \<open>Escalation of overdue tasks\<close>

definition liveStatus :: "step_instance \<Rightarrow> bool" where
  "liveStatus st = (si_status st = Pending \<or> si_status st = InProgress)"

definition dueBefore :: "time \<Rightarrow> step_instance \<Rightarrow> bool" where
  "dueBefore t st = (case si_dueDate st of None \<Rightarrow> False | Some d \<Rightarrow> d < t)"

definition isManagerOrAdmin :: "user \<Rightarrow> bool" where
  "isManagerOrAdmin u = ((u_role u = Manager \<or> u_role u = Admin) \<and> u_isActive u)"

text \<open>The query of \<^verbatim>\<open>escalateOverdueTasks\<close> and of the scheduler's \<^verbatim>\<open>checkOverdueTasks\<close>.\<close>

definition overdueUnescalated :: "time \<Rightarrow> step_instance \<Rightarrow> bool" where
  "overdueUnescalated now st = (liveStatus st \<and> dueBefore now st \<and> \<not> si_escalated st)"

definition escalateTask :: "user \<Rightarrow> time \<Rightarrow> step_instance \<Rightarrow> step_instance" where
  "escalateTask escalationTarget now task =
     task\<lparr>si_escalated := True, si_escalationLevel := 1,
          si_escalationHistory := si_escalationHistory task @
            [\<lparr>eh_level = 1, eh_escalatedTo = u_id escalationTarget, eh_escalatedAt = now,
              eh_reason = ''Task overdue - automatic escalation''\<rparr>]\<rparr>"

text \<open>
  The loop of the engine's \<^verbatim>\<open>escalateOverdueTasks\<close>. It has no
  \<^verbatim>\<open>try\<close> of its own: the first error leaves the loop. The history document
  is created with \<^verbatim>\<open>performedBy: null\<close>.
\<close>

fun escalateLoop :: "time \<Rightarrow> (nat \<times> step_instance) list \<Rightarrow> store \<Rightarrow> outcome \<times> store" where
  "escalateLoop now [] s = (Returned, s)"
| "escalateLoop now ((taskId, task) # rest) s =
     (case take 1 (filter isManagerOrAdmin (users s)) of
        [] \<Rightarrow> escalateLoop now rest s
      | escalationTarget # _ \<Rightarrow>
          (let s1 = StepInstance_save taskId (escalateTask escalationTarget now task) s
           in case processes s1 (si_processInstanceId task) of
                None \<Rightarrow> (Threw TypeError, s1)
              | Some processInstance \<Rightarrow>
                  (case ProcessHistory_create
                          \<lparr>h_processInstanceId = si_processInstanceId task,
                           h_stepInstanceId = Some taskId, h_action = ''step_escalated'',
                           h_performedBy = None, h_fromStatus = None, h_toStatus = None\<rparr> s1 of
                     Inl e \<Rightarrow> (Threw e, s1)
                   | Inr s2 \<Rightarrow>
                       (case Notification_create
                               \<lparr>n_userId = Some (u_id escalationTarget),
                                n_type = ''task_escalated'',
                                n_title = ''Overdue Task Escalated'',
                                n_message = ''Task '' @ quoted (si_name task)
                                  @ '' is overdue and has been escalated to you.'',
                                n_relatedProcess = Some (si_processInstanceId task),
                                n_relatedStep = Some taskId, n_priority = ''high''\<rparr> s2 of
                          Inl e \<Rightarrow> (Threw e, s2)
                        | Inr s3 \<Rightarrow> escalateLoop now rest s3))))"

text \<open>\<^verbatim>\<open>escalateOverdueTasks()\<close>: the outer \<^verbatim>\<open>catch\<close> logs the error and returns.\<close>

definition escalateOverdueTasks :: "time \<Rightarrow> store \<Rightarrow> store" where
  "escalateOverdueTasks now s =
     snd (escalateLoop now (StepInstance_find (overdueUnescalated now) s) s)"

section \<open>Scheduler\<close>

text \<open>
  The body of the loop of \<^verbatim>\<open>checkOverdueTasks\<close>, inside its own \<^verbatim>\<open>try\<close>:
  whatever is thrown after the \<^verbatim>\<open>save()\<close> is logged and the loop goes on.
  \<^verbatim>\<open>populate('assignedTo')\<close> leaves \<^verbatim>\<open>null\<close> for a user that does not exist.
\<close>

definition markOverdue :: "nat \<Rightarrow> step_instance \<Rightarrow> store \<Rightarrow> store" where
  "markOverdue taskId task s =
     (let s1 = StepInstance_save taskId (task\<lparr>si_escalated := True\<rparr>) s
      in case find (\<lambda>u. Some (u_id u) = si_assignedTo task) (users s1) of
           None \<Rightarrow> s1
         | Some assignee \<Rightarrow>
             (case processes s1 (si_processInstanceId task) of
                None \<Rightarrow> s1
              | Some processInstance \<Rightarrow>
                  (case Notification_create
                          \<lparr>n_userId = Some (u_id assignee), n_type = ''task_overdue'',
                           n_title = ''Task Overdue'',
                           n_message = ''Task '' @ quoted (si_name task) @ '' is overdue'',
                           n_relatedProcess = Some (si_processInstanceId task),
                           n_relatedStep = Some taskId, n_priority = ''high''\<rparr> s1 of
                     Inl e \<Rightarrow> s1
                   | Inr s2 \<Rightarrow> s2)))"

fun markOverdueLoop :: "(nat \<times> step_instance) list \<Rightarrow> store \<Rightarrow> store" where
  "markOverdueLoop [] s = s"
| "markOverdueLoop ((taskId, task) # rest) s = markOverdueLoop rest (markOverdue taskId task s)"

definition checkOverdueTasks :: "time \<Rightarrow> store \<Rightarrow> store" where
  "checkOverdueTasks currentDate s =
     markOverdueLoop (StepInstance_find (overdueUnescalated currentDate) s) s"

text \<open>Decimal digits of a number, for \<^verbatim>\<open>`Task Escalated (Level ${escalationLevel})`\<close>.\<close>

definition digit_char :: "nat \<Rightarrow> char" where
  "digit_char d = char_of (48 + d)"

function string_of_nat :: "nat \<Rightarrow> string" where
  "string_of_nat n =
     (if n < 10 then [digit_char n] else string_of_nat (n div 10) @ [digit_char (n mod 10)])"
  by pat_completeness auto
termination
  by (relation "measure id") auto

text \<open>The query of \<^verbatim>\<open>processTaskEscalations\<close>; the threshold is two hours before now.\<close>

definition needsEscalation :: "time \<Rightarrow> step_instance \<Rightarrow> bool" where
  "needsEscalation currentDate st =
     (liveStatus st \<and> dueBefore (currentDate - 2 * 60 * 60 * 1000) st
      \<and> si_escalated st \<and> si_escalationLevel st < 3)"

definition escalationNotice :: "user \<Rightarrow> nat \<Rightarrow> step_instance \<Rightarrow> nat \<Rightarrow> notification" where
  "escalationNotice target taskId task escalationLevel =
     \<lparr>n_userId = Some (u_id target), n_type = ''task_escalated'',
      n_title = ''Task Escalated (Level '' @ string_of_nat escalationLevel @ '')'',
      n_message = ''Task '' @ quoted (si_name task)
                  @ '' has been escalated due to being overdue'',
      n_relatedProcess = Some (si_processInstanceId task), n_relatedStep = Some taskId,
      n_priority = ''urgent''\<rparr>"

text \<open>
  The inner loop over the escalation targets. Building the argument reads
  \<^verbatim>\<open>task.processInstanceId._id\<close>, a TypeError when the process instance is gone.
\<close>

fun notifyTargets :: "user list \<Rightarrow> nat \<Rightarrow> step_instance \<Rightarrow> nat \<Rightarrow> store \<Rightarrow> outcome \<times> store" where
  "notifyTargets [] taskId task escalationLevel s = (Returned, s)"
| "notifyTargets (target # rest) taskId task escalationLevel s =
     (case processes s (si_processInstanceId task) of
        None \<Rightarrow> (Threw TypeError, s)
      | Some processInstance \<Rightarrow>
          (case Notification_create (escalationNotice target taskId task escalationLevel) s of
             Inl e \<Rightarrow> (Threw e, s)
           | Inr s1 \<Rightarrow> notifyTargets rest taskId task escalationLevel s1))"

text \<open>The body of the loop of \<^verbatim>\<open>processTaskEscalations\<close>, inside its own \<^verbatim>\<open>try\<close>.\<close>

definition cascadeTask :: "nat \<Rightarrow> step_instance \<Rightarrow> store \<Rightarrow> store" where
  "cascadeTask taskId task s =
     (let escalationLevel = si_escalationLevel task + 1;
          s1 = StepInstance_save taskId (task\<lparr>si_escalationLevel := escalationLevel\<rparr>) s;
          escalationTargets = filter isManagerOrAdmin (users s1)
      in snd (notifyTargets escalationTargets taskId task escalationLevel s1))"

fun cascadeLoop :: "(nat \<times> step_instance) list \<Rightarrow> store \<Rightarrow> store" where
  "cascadeLoop [] s = s"
| "cascadeLoop ((taskId, task) # rest) s = cascadeLoop rest (cascadeTask taskId task s)"

definition processTaskEscalations :: "time \<Rightarrow> store \<Rightarrow> store" where
  "processTaskEscalations currentDate s =
     cascadeLoop (StepInstance_find (needsEscalation currentDate) s) s"

section \<open>Template validation\<close>

fun join_comma :: "string list \<Rightarrow> string" where
  "join_comma [] = []"
| "join_comma [x] = x"
| "join_comma (x # y # rest) = x @ '', '' @ join_comma (y # rest)"



text \<open>The \<^verbatim>\<open>pre('save')\<close> hook of the ProcessTemplate model.\<close>

definition preSave :: "process_template \<Rightarrow> error + unit" where
  "preSave template =
     (if \<not> list_ex (\<lambda>step. sd_stepId step = pt_startStep template) (pt_steps template)
      then Inl (PlainError ''Start step must exist in the steps array'')
      else
        (let stepIds = map sd_stepId (pt_steps template);
             invalidEndSteps = filter (\<lambda>endStep. endStep \<notin> set stepIds) (pt_endSteps template)
         in if invalidEndSteps \<noteq> []
            then Inl (PlainError (''End steps not found in steps array: ''
                                  @ join_comma invalidEndSteps))
            else Inr ()))"


text \<open>The reference invariant of the data model.\<close>

definition referencesResolve :: "process_template \<Rightarrow> bool" where
  "referencesResolve template =
     (let stepIds = set (map sd_stepId (pt_steps template))
      in pt_startStep template \<in> stepIds
         \<and> set (pt_endSteps template) \<subseteq> stepIds
         \<and> (\<forall>step \<in> set (pt_steps template).
              \<forall>ns \<in> set (sd_nextSteps step). ns_stepId ns \<in> stepIds))"

section \<open>Escalation state of the reachable databases\<close>

text \<open>
  What the claims on escalation say of one step instance: the level is at most
  3, and a step that is not marked escalated is at level 0.
\<close>

definition escalationInv :: "step_instance \<Rightarrow> bool" where
  "escalationInv st =
     (si_escalationLevel st \<le> 3 \<and> (\<not> si_escalated st \<longrightarrow> si_escalationLevel st = 0))"

text \<open>
  One collection of step instances after the other: documents are only added,
  a document that satisfies the invariant keeps it and its level does not go
  down, and the added documents satisfy the invariant.
\<close>

definition stepsEvolve :: "step_instance list \<Rightarrow> step_instance list \<Rightarrow> bool" where
  "stepsEvolve xs ys =
     (length xs \<le> length ys
      \<and> (\<forall>i < length xs. escalationInv (xs ! i) \<longrightarrow>
            escalationInv (ys ! i) \<and> si_escalationLevel (xs ! i) \<le> si_escalationLevel (ys ! i))
      \<and> (\<forall>i. length xs \<le> i \<and> i < length ys \<longrightarrow> escalationInv (ys ! i)))"

text \<open>
  The steps of the system: the calls of the engine, the three escalation
  passes (the engine's \<^verbatim>\<open>escalateOverdueTasks\<close>, the scheduler's overdue check
  and its escalation cascade), at any time and with any arguments, and any
  other write that leaves \<^verbatim>\<open>escalated\<close> and \<^verbatim>\<open>escalationLevel\<close> of every step
  instance as they are (templates, process instances, users, the notification
  sink, and the start, skip, assign and reassign of a step).
\<close>

inductive sys_step :: "store \<Rightarrow> store \<Rightarrow> bool" where
  step_startProcess: "sys_step s (snd (startProcess processInstanceId userId now s))"
| step_completeStep: "sys_step s (snd (completeStep stepInstanceId userId formData decision now s))"
| step_escalateOverdueTasks: "sys_step s (escalateOverdueTasks now s)"
| step_checkOverdueTasks: "sys_step s (checkOverdueTasks now s)"
| step_processTaskEscalations: "sys_step s (processTaskEscalations now s)"
| step_other:
    "length (steps s') = length (steps s) \<Longrightarrow>
     \<forall>i < length (steps s).
        si_escalated (steps s' ! i) = si_escalated (steps s ! i)
        \<and> si_escalationLevel (steps s' ! i) = si_escalationLevel (steps s ! i) \<Longrightarrow>
     sys_step s s'"

text \<open>The databases reachable from one without step instances.\<close>

inductive reachable :: "store \<Rightarrow> bool" where
  reachable_init: "steps s = [] \<Longrightarrow> reachable s"
| reachable_step: "reachable s \<Longrightarrow> sys_step s s' \<Longrightarrow> reachable s'"


section \<open>Example data\<close>

text \<open>The ObjectIds of four users.\<close>

abbreviation aliceId :: user_id where
  "aliceId \<equiv> ''665f1c2e9b3a4d0012ab34a1''"

abbreviation bobId :: user_id where
  "bobId \<equiv> ''665f1c2e9b3a4d0012ab34b2''"

abbreviation carolId :: user_id where
  "carolId \<equiv> ''665f1c2e9b3a4d0012ab34c3''"

abbreviation daveId :: user_id where
  "daveId \<equiv> ''665f1c2e9b3a4d0012ab34d4''"

definition alice :: user where
  "alice = \<lparr>u_id = aliceId, u_role = PlainUser, u_isActive = True\<rparr>"

definition bob :: user where
  "bob = \<lparr>u_id = bobId, u_role = Manager, u_isActive = True\<rparr>"

definition dave :: user where
  "dave = \<lparr>u_id = daveId, u_role = Admin, u_isActive = True\<rparr>"

text \<open>
  The clock of a host on UTC. \<^verbatim>\<open>setHours(hour)\<close> keeps the day, the minutes, the
  seconds and the milliseconds and takes the integer part of \<^verbatim>\<open>hour\<close> for the
  hours; the sum \<^verbatim>\<open>getHours() + timeLimit\<close> is taken exactly here, as it is in
  doubles for the time limits of whole hours of the examples.
\<close>

definition toInteger :: "real \<Rightarrow> int" where
  "toInteger x = (if 0 \<le> x then \<lfloor>x\<rfloor> else \<lceil>x\<rceil>)"

definition utcClock :: "time \<Rightarrow> real \<Rightarrow> js_date" where
  "utcClock now h =
     (let hours = (now div 3600000) mod 24;
          t = now + (toInteger (of_int hours + h) - hours) * 3600000
      in if \<bar>t\<bar> \<le> 8640000000000000 then ValidDate t else InvalidDate)"

text \<open>A template of two steps, start then end, with an unconditional transition.\<close>

definition startDef :: step_def where
  "startDef =
     \<lparr>sd_stepId = ''start'', sd_name = ''Fill in request'', sd_type = UserTask,
      sd_assigneeType = AssignUser, sd_assignees = [aliceId], sd_autoComplete = False,
      sd_timeLimit = Some 24,
      sd_nextSteps = [\<lparr>ns_condition = None, ns_stepId = ''end''\<rparr>]\<rparr>"

definition endDef :: step_def where
  "endDef =
     \<lparr>sd_stepId = ''end'', sd_name = ''Done'', sd_type = End,
      sd_assigneeType = AssignAuto, sd_assignees = [], sd_autoComplete = False,
      sd_timeLimit = None, sd_nextSteps = []\<rparr>"

definition twoStepTemplate :: process_template where
  "twoStepTemplate =
     \<lparr>pt_steps = [startDef, endDef], pt_startStep = ''start'', pt_endSteps = [''end'']\<rparr>"

text \<open>The same template with a start step that completes itself.\<close>

definition autoStartTemplate :: process_template where
  "autoStartTemplate =
     \<lparr>pt_steps = [startDef\<lparr>sd_type := Start, sd_autoComplete := True\<rparr>, endDef],
      pt_startStep = ''start'', pt_endSteps = [''end'']\<rparr>"

text \<open>A template whose start step points to a step that is not defined.\<close>

definition danglingTemplate :: process_template where
  "danglingTemplate =
     \<lparr>pt_steps = [startDef\<lparr>sd_nextSteps := [\<lparr>ns_condition = None, ns_stepId = ''ghost''\<rparr>]\<rparr>,
                 endDef],
      pt_startStep = ''start'', pt_endSteps = [''end'']\<rparr>"

text \<open>A template that goes from the start step to the approve/reject decision.\<close>

definition reviewTemplate :: process_template where
  "reviewTemplate =
     \<lparr>pt_steps = [startDef\<lparr>sd_nextSteps := [\<lparr>ns_condition = None, ns_stepId = ''review''\<rparr>]\<rparr>,
                 approveRejectStep, endDef\<lparr>sd_stepId := ''A''\<rparr>, endDef\<lparr>sd_stepId := ''B''\<rparr>],
      pt_startStep = ''start'', pt_endSteps = [''A'', ''B'']\<rparr>"

definition draftProcess :: process_instance where
  "draftProcess =
     \<lparr>pi_processTemplateId = 1, pi_name = ''Request 7'', pi_status = Draft,
      pi_initiatedBy = carolId, pi_currentSteps = [], pi_startDate = None,
      pi_endDate = None, pi_completionPercentage = 0\<rparr>"

text \<open>
  A database with the templates, one draft process instance for each of the
  first two, no step instance yet, a notification sink that accepts
  everything, and the clock on UTC.
\<close>

definition draftStore :: store where
  "draftStore =
     \<lparr>templates = [1 \<mapsto> twoStepTemplate, 2 \<mapsto> autoStartTemplate,
                  3 \<mapsto> reviewTemplate],
      processes = [7 \<mapsto> draftProcess, 8 \<mapsto> draftProcess\<lparr>pi_processTemplateId := 2\<rparr>],
      steps = [], users = [alice, bob, dave], history = [], notifications = [],
      notificationFails = (\<lambda>n. False), hoursFromNow = utcClock\<rparr>"

text \<open>Process 7 after its start, with the start step taken up by its assignee.\<close>

definition runningProcess :: process_instance where
  "runningProcess =
     draftProcess\<lparr>pi_status := Active, pi_startDate := Some 1000, pi_currentSteps := [''start'']\<rparr>"

definition runningStep :: step_instance where
  "runningStep =
     (newStepInstance 7 startDef)
       \<lparr>si_status := InProgress, si_assignedTo := Some aliceId, si_startDate := Some 1500,
        si_dueDate := Some 5000\<rparr>"

definition runningStore :: store where
  "runningStore = draftStore\<lparr>processes := [7 \<mapsto> runningProcess], steps := [runningStep]\<rparr>"

text \<open>
  Process 7 on the review template, at the moment \<^verbatim>\<open>completeStep\<close> has saved
  the start step as completed and calls \<^verbatim>\<open>processStepCompletion\<close>.
\<close>

definition reviewProcess :: process_instance where
  "reviewProcess = runningProcess\<lparr>pi_processTemplateId := 3\<rparr>"

definition reviewStore :: store where
  "reviewStore =
     runningStore\<lparr>processes := [7 \<mapsto> reviewProcess],
                   steps := [runningStep\<lparr>si_status := StepCompleted\<rparr>]\<rparr>"

text \<open>
  The review template with a user name, not an ObjectId, as the assignee of the
  review step; process 7 on it, with the start step in progress, and at the
  moment \<^verbatim>\<open>completeStep\<close> has saved the start step as completed.
\<close>

definition namedReviewTemplate :: process_template where
  "namedReviewTemplate =
     \<lparr>pt_steps = [startDef\<lparr>sd_nextSteps := [\<lparr>ns_condition = None, ns_stepId = ''review''\<rparr>]\<rparr>,
                 approveRejectStep\<lparr>sd_assignees := [''bob'']\<rparr>,
                 endDef\<lparr>sd_stepId := ''A''\<rparr>, endDef\<lparr>sd_stepId := ''B''\<rparr>],
      pt_startStep = ''start'', pt_endSteps = [''A'', ''B'']\<rparr>"

definition namedRunningStore :: store where
  "namedRunningStore =
     runningStore\<lparr>templates := [3 \<mapsto> namedReviewTemplate],
                    processes := [7 \<mapsto> reviewProcess]\<rparr>"

definition namedReviewStore :: store where
  "namedReviewStore = reviewStore\<lparr>templates := [3 \<mapsto> namedReviewTemplate]\<rparr>"

text \<open>
  The draft database with a user name as the assignee of the start step of
  template 1.
\<close>

definition namedStartStore :: store where
  "namedStartStore =
     draftStore\<lparr>templates :=
       [1 \<mapsto> twoStepTemplate\<lparr>pt_steps := [startDef\<lparr>sd_assignees := [''alice'']\<rparr>, endDef]\<rparr>]\<rparr>"

text \<open>
  Process 7 on the review template after rounds of rework: 39 step instances,
  23 of them completed, the start step just saved as completed.
\<close>

definition reworkedStore :: store where
  "reworkedStore =
     reviewStore\<lparr>steps :=
       [runningStep\<lparr>si_status := StepCompleted\<rparr>]
       @ replicate 22 (runningStep\<lparr>si_stepId := ''review'', si_status := StepCompleted\<rparr>)
       @ replicate 16 (runningStep\<lparr>si_stepId := ''review'', si_status := Skipped\<rparr>)\<rparr>"

text \<open>The database of the running process 7 with a notification sink that is down.\<close>

definition sinkDownStore :: store where
  "sinkDownStore = runningStore\<lparr>notificationFails := (\<lambda>n. True)\<rparr>"

text \<open>Two step instances of process 7, both past their due date and not escalated.\<close>

definition secondStep :: step_instance where
  "secondStep = runningStep\<lparr>si_stepId := ''end'', si_name := ''Done'', si_status := Pending\<rparr>"

definition overdueStore :: store where
  "overdueStore = runningStore\<lparr>steps := [runningStep, secondStep]\<rparr>"

text \<open>One step instance that the overdue check has marked, due long ago.\<close>

definition escalatedStore :: store where
  "escalatedStore = runningStore\<lparr>steps := [runningStep\<lparr>si_escalated := True\<rparr>]\<rparr>"

text \<open>
  Process 7 started at time 1000 (its start step is due 24 hours later), then
  the overdue check and five escalation cascades, all at time \<open>10\<^sup>8\<close>.
\<close>

definition startedStore :: store where
  "startedStore = snd (startProcess 7 carolId 1000 draftStore)"

definition cascadedStore :: store where
  "cascadedStore =
     processTaskEscalations 100000000
       (processTaskEscalations 100000000
         (processTaskEscalations 100000000
           (processTaskEscalations 100000000
             (processTaskEscalations 100000000
               (checkOverdueTasks 100000000 startedStore)))))"

section \<open>Routing: the collected set and the dead decision branch\<close>

lemma cond_holds_iff:
  "(\<not> truthy c \<or> evaluateCondition (the c) si d) = spec_conditionHolds c d"
  by (cases c) (auto simp: truthy_def evaluateCondition_def spec_conditionHolds_def)

lemma collectNextSteps_filter:
  "collectNextSteps xs si d acc =
     acc @ map ns_stepId (filter (\<lambda>ns. spec_conditionHolds (ns_condition ns) d) xs)"
proof (induction xs arbitrary: acc)
  case Nil
  then show ?case by simp
next
  case (Cons ns xs)
  show ?case
    using cond_holds_iff [of "ns_condition ns" si d] by (auto simp: Cons.IH)
qed

lemma literal_subset_holding:
  assumes "d \<noteq> None"
    and "filter (\<lambda>ns. spec_conditionHolds (ns_condition ns) d) xs = []"
  shows "filter (\<lambda>ns. ns_condition ns = d) xs = []"
proof -
  from assms(2) have "\<forall>ns\<in>set xs. \<not> spec_conditionHolds (ns_condition ns) d"
    by (simp add: filter_empty_conv)
  with assms(1) have "\<forall>ns\<in>set xs. ns_condition ns \<noteq> d"
    by (auto simp: spec_conditionHolds_def)
  then show ?thesis by (simp add: filter_empty_conv)
qed

lemma find_literal_None:
  assumes "collectNextSteps xs si d [] = []" and "truthy d"
  shows "find (\<lambda>ns. ns_condition ns = d) xs = None"
proof -
  from assms(2) have "d \<noteq> None" by (cases d) (simp_all add: truthy_def)
  moreover from assms(1)
  have "filter (\<lambda>ns. spec_conditionHolds (ns_condition ns) d) xs = []"
    by (simp add: collectNextSteps_filter)
  ultimately have "filter (\<lambda>ns. ns_condition ns = d) xs = []"
    by (rule literal_subset_holding)
  then show ?thesis by (simp add: find_None_iff filter_empty_conv)
qed

lemma decision_branch_dead:
  "determineNextSteps sd si d = determineNextSteps_noDecisionBranch sd si d"
proof (cases "collectNextSteps (sd_nextSteps sd) si d [] = [] \<and> truthy d")
  case True
  then have h: "find (\<lambda>ns. ns_condition ns = d) (sd_nextSteps sd) = None"
    using find_literal_None by blast
  show ?thesis
    unfolding determineNextSteps_def determineNextSteps_noDecisionBranch_def Let_def h option.case
    by simp
next
  case False
  then show ?thesis
    by (auto simp: determineNextSteps_def determineNextSteps_noDecisionBranch_def Let_def)
qed

lemma noDecisionBranch_spec:
  "determineNextSteps_noDecisionBranch sd si d = spec_determineNextSteps sd d"
proof (cases "filter (\<lambda>ns. spec_conditionHolds (ns_condition ns) d) (sd_nextSteps sd) = []")
  case True
  then have lit: "d \<noteq> None \<Longrightarrow> filter (\<lambda>ns. ns_condition ns = d) (sd_nextSteps sd) = []"
    using literal_subset_holding by blast
  show ?thesis
  proof (cases "sd_nextSteps sd")
    case Nil
    then show ?thesis
      by (simp add: determineNextSteps_noDecisionBranch_def spec_determineNextSteps_def)
  next
    case (Cons first rest)
    with True lit show ?thesis
      by (auto simp: determineNextSteps_noDecisionBranch_def spec_determineNextSteps_def
            collectNextSteps_filter Let_def)
  qed
next
  case False
  then show ?thesis
    by (auto simp: determineNextSteps_noDecisionBranch_def spec_determineNextSteps_def
          collectNextSteps_filter Let_def)
qed

text \<open>
  C1. \<^verbatim>\<open>determineNextSteps\<close> computes the four stages of the specification in
  their order: the entries whose condition is absent, empty, \<^verbatim>\<open>"true"\<close> or equal
  to the supplied decision; else, for a decision step with a supplied decision,
  the entry whose condition is literally the decision; else the first entry;
  else nothing. For the approve/reject decision step, the decision
  \<^verbatim>\<open>"approve"\<close> gives exactly \<open>A\<close>, and the decision \<^verbatim>\<open>"unknown"\<close> gives \<open>A\<close>
  through the first-entry fallback. The function returns a list in every case;
  it has no error result.
\<close>

theorem determineNextSteps_precedence:
  "determineNextSteps stepDef stepInstance decision = spec_determineNextSteps stepDef decision
   \<and> determineNextSteps approveRejectStep stepInstance (Some ''approve'') = [''A'']
   \<and> determineNextSteps approveRejectStep stepInstance (Some ''unknown'') = [''A'']"
proof (intro conjI)
  show "determineNextSteps stepDef stepInstance decision = spec_determineNextSteps stepDef decision"
    by (simp add: decision_branch_dead noDecisionBranch_spec)
  show "determineNextSteps approveRejectStep stepInstance (Some ''approve'') = [''A'']"
    by (simp add: determineNextSteps_def approveRejectStep_def evaluateCondition_def truthy_def)
  show "determineNextSteps approveRejectStep stepInstance (Some ''unknown'') = [''A'']"
    by (simp add: determineNextSteps_def approveRejectStep_def evaluateCondition_def truthy_def)
qed

theorem determineNextSteps_precedence_witness:
  "determineNextSteps approveRejectStep (newStepInstance 7 approveRejectStep) (Some ''reject'')
     = [''B'']"
  using determineNextSteps_precedence
    [of approveRejectStep "newStepInstance 7 approveRejectStep" "Some ''reject''"]
  by (simp add: spec_determineNextSteps_def spec_conditionHolds_def approveRejectStep_def)

text \<open>
  C10. \<^verbatim>\<open>determineNextSteps\<close> returns what its variant without the
  decision-literal branch returns, for every template step, step instance and
  decision: an entry whose condition equals a supplied decision is already
  collected by the first pass.
\<close>

theorem determineNextSteps_decision_branch_redundant:
  "determineNextSteps templateStep stepInstance decision
     = determineNextSteps_noDecisionBranch templateStep stepInstance decision"
  by (rule decision_branch_dead)

theorem determineNextSteps_decision_branch_redundant_witness:
  "determineNextSteps_noDecisionBranch approveRejectStep (newStepInstance 7 approveRejectStep)
     (Some ''approve'') = [''A'']"
  using determineNextSteps_decision_branch_redundant
    [of approveRejectStep "newStepInstance 7 approveRejectStep" "Some ''approve''"]
  by (simp add: determineNextSteps_def approveRejectStep_def evaluateCondition_def truthy_def)

section \<open>Template validation rejects dangling references\<close>






text \<open>
  The hook of the model alone does not look at \<^verbatim>\<open>nextSteps\<close>: it accepts the
  template with the dangling transition. The check of the transitions is the
  controller's.
\<close>

lemma preSave_ignores_nextSteps:
  "preSave danglingTemplate = Inr () \<and> \<not> referencesResolve danglingTemplate"
  by (simp add: preSave_def referencesResolve_def danglingTemplate_def startDef_def endDef_def)



section \<open>Doubles: the modelled quotient is the correctly rounded one\<close>

lemma binaryExponentBelow_spec:
  "0 < a \<Longrightarrow> b \<le> a * 2 ^ binaryExponentBelow a b
     \<and> (a < b \<longrightarrow> a * 2 ^ binaryExponentBelow a b < 2 * b)"
proof (induction a b rule: binaryExponentBelow.induct)
  case (1 a b)
  show ?case
  proof (cases "b \<le> a")
    case True
    then show ?thesis by (simp add: binaryExponentBelow.simps [of a b])
  next
    case False
    with 1 have ih: "b \<le> 2 * a * 2 ^ binaryExponentBelow (2 * a) b
       \<and> (2 * a < b \<longrightarrow> 2 * a * 2 ^ binaryExponentBelow (2 * a) b < 2 * b)"
      by simp
    have s: "binaryExponentBelow a b = Suc (binaryExponentBelow (2 * a) b)"
      using False 1(2) by (simp add: binaryExponentBelow.simps [of a b])
    show ?thesis
    proof (cases "2 * a < b")
      case True
      with ih show ?thesis by (simp add: s mult.assoc)
    next
      case f2: False
      then have "binaryExponentBelow (2 * a) b = 0"
        by (simp add: binaryExponentBelow.simps [of "2 * a" b])
      with False f2 show ?thesis by (simp add: s)
    qed
  qed
qed

lemma binaryExponentAbove_spec:
  "0 < b \<Longrightarrow> b \<le> a \<Longrightarrow>
     b * 2 ^ binaryExponentAbove a b \<le> a \<and> a < 2 * (b * 2 ^ binaryExponentAbove a b)"
proof (induction a b rule: binaryExponentAbove.induct)
  case (1 a b)
  show ?case
  proof (cases "a < 2 * b")
    case True
    with 1(2,3) show ?thesis by (simp add: binaryExponentAbove.simps [of a b])
  next
    case False
    with 1 have ih: "2 * b * 2 ^ binaryExponentAbove a (2 * b) \<le> a
        \<and> a < 2 * (2 * b * 2 ^ binaryExponentAbove a (2 * b))"
      by simp
    have s: "binaryExponentAbove a b = Suc (binaryExponentAbove a (2 * b))"
      using False 1(2) by (simp add: binaryExponentAbove.simps [of a b])
    from ih show ?thesis by (simp add: s mult.assoc mult.left_commute)
  qed
qed

text \<open>
  \<open>roundHalfEven x y\<close> is an integer nearest to \<open>x / y\<close>, and the even one of the
  two when \<open>x / y\<close> lies halfway.
\<close>

lemma roundHalfEven_nearest:
  assumes "0 < y"
  shows "\<bar>2 * int (roundHalfEven x y) * int y - 2 * int x\<bar> \<le> int y
     \<and> (\<bar>2 * int (roundHalfEven x y) * int y - 2 * int x\<bar> = int y \<longrightarrow> even (roundHalfEven x y))"
proof -
  define q r where "q = x div y" and "r = x mod y"
  have x: "int x = int q * int y + int r"
    unfolding q_def r_def by (metis of_nat_add of_nat_mult div_mult_mod_eq)
  have r: "r < y" unfolding r_def using assms by simp
  consider "2 * r < y" | "y < 2 * r" | "2 * r = y" by linarith
  then show ?thesis
  proof cases
    case 1
    then have "roundHalfEven x y = q" by (simp add: roundHalfEven_def Let_def q_def r_def)
    with 1 x show ?thesis by (simp add: algebra_simps)
  next
    case 2
    then have "roundHalfEven x y = q + 1" by (simp add: roundHalfEven_def Let_def q_def r_def)
    with 2 r x show ?thesis by (simp add: algebra_simps)
  next
    case 3
    then have e: "roundHalfEven x y = (if even q then q else q + 1)"
      by (simp add: roundHalfEven_def Let_def q_def r_def)
    show ?thesis
    proof (cases "even q")
      case True
      with e 3 x show ?thesis by (simp add: algebra_simps)
    next
      case False
      with e 3 x show ?thesis by (simp add: algebra_simps)
    qed
  qed
qed


text \<open>
  \<open>nearestDouble a b\<close> is the quotient correctly rounded to 53 significant bits:
  a power of two scales \<open>a / b\<close> into \<open>[2\<^sup>5\<^sup>2, 2\<^sup>5\<^sup>3)\<close>, the significand is
  \<open>roundHalfEven\<close> of the scaled quotient, and the result is the significand
  scaled back.
\<close>

lemma nearestDouble_correctly_rounded:
  assumes "0 < a" "0 < b"
  shows "(\<exists>s. nearestDouble a b = (roundHalfEven (a * 2 ^ s) b, 2 ^ s)
             \<and> 2 ^ 52 * b \<le> a * 2 ^ s \<and> a * 2 ^ s < 2 ^ 53 * b)
       \<or> (\<exists>t. nearestDouble a b = (roundHalfEven a (b * 2 ^ t) * 2 ^ t, 1)
             \<and> 2 ^ 52 * (b * 2 ^ t) \<le> a \<and> a < 2 ^ 53 * (b * 2 ^ t))"
proof (cases "a < b")
  case True
  let ?s = "binaryExponentBelow a b"
  from binaryExponentBelow_spec [OF assms(1), of b] True
  have 1: "b \<le> a * 2 ^ ?s" and 2: "a * 2 ^ ?s < 2 * b" by simp_all
  have n: "nearestDouble a b = (roundHalfEven (a * 2 ^ (?s + 52)) b, 2 ^ (?s + 52))"
    using assms True by (simp add: nearestDouble_def Let_def)
  from 1 have "2 ^ 52 * b \<le> 2 ^ 52 * (a * 2 ^ ?s)" by (rule mult_le_mono2)
  then have 3: "2 ^ 52 * b \<le> a * 2 ^ (?s + 52)" by (simp add: power_add mult_ac)
  from 2 have "2 ^ 52 * (a * 2 ^ ?s) < 2 ^ 52 * (2 * b)" by simp
  then have 4: "a * 2 ^ (?s + 52) < 2 ^ 53 * b" by (simp add: power_add mult_ac)
  from n 3 4 show ?thesis by blast
next
  case False
  then have le: "b \<le> a" by simp
  let ?e = "binaryExponentAbove a b"
  from binaryExponentAbove_spec [OF assms(2) le]
  have 1: "b * 2 ^ ?e \<le> a" and 2: "a < 2 * (b * 2 ^ ?e)" by simp_all
  show ?thesis
  proof (cases "?e \<le> 52")
    case True
    then have e: "?e + (52 - ?e) = 52" by simp
    have p: "(2::nat) ^ ?e * 2 ^ (52 - ?e) = 2 ^ 52"
      by (simp only: power_add [symmetric] e)
    have n: "nearestDouble a b = (roundHalfEven (a * 2 ^ (52 - ?e)) b, 2 ^ (52 - ?e))"
      using assms False True by (simp add: nearestDouble_def Let_def)
    from 1 have "b * 2 ^ ?e * 2 ^ (52 - ?e) \<le> a * 2 ^ (52 - ?e)" by (rule mult_le_mono1)
    then have "b * (2 ^ ?e * 2 ^ (52 - ?e)) \<le> a * 2 ^ (52 - ?e)" by (simp only: mult.assoc)
    then have 3: "2 ^ 52 * b \<le> a * 2 ^ (52 - ?e)" by (simp only: p mult.commute)
    from 2 have "a * 2 ^ (52 - ?e) < 2 * (b * 2 ^ ?e) * 2 ^ (52 - ?e)" by simp
    also have "\<dots> = 2 * (b * (2 ^ ?e * 2 ^ (52 - ?e)))" by (simp only: mult.assoc)
    also have "\<dots> = 2 ^ 53 * b" by (simp only: p) simp
    finally have 4: "a * 2 ^ (52 - ?e) < 2 ^ 53 * b" .
    from n 3 4 show ?thesis by blast
  next
    case big: False
    then have e: "52 + (?e - 52) = ?e" by simp
    have p: "(2::nat) ^ 52 * 2 ^ (?e - 52) = 2 ^ ?e"
      by (simp only: power_add [symmetric] e)
    have n: "nearestDouble a b = (roundHalfEven a (b * 2 ^ (?e - 52)) * 2 ^ (?e - 52), 1)"
      using assms False big by (simp add: nearestDouble_def Let_def)
    have "2 ^ 52 * (b * 2 ^ (?e - 52)) = b * (2 ^ 52 * 2 ^ (?e - 52))" by (simp only: mult_ac)
    also have "\<dots> = b * 2 ^ ?e" by (simp only: p)
    finally have q: "2 ^ 52 * (b * 2 ^ (?e - 52)) = b * 2 ^ ?e" .
    have 3: "2 ^ 52 * (b * 2 ^ (?e - 52)) \<le> a" unfolding q by (rule 1)
    have h53: "(2::nat) ^ 53 = 2 * 2 ^ 52" by simp
    have "2 ^ 53 * (b * 2 ^ (?e - 52)) = 2 * (2 ^ 52 * (b * 2 ^ (?e - 52)))"
      by (simp only: h53 mult.assoc)
    also have "\<dots> = 2 * (b * 2 ^ ?e)" by (simp only: q)
    finally have r: "2 ^ 53 * (b * 2 ^ (?e - 52)) = 2 * (b * 2 ^ ?e)" .
    have 4: "a < 2 ^ 53 * (b * 2 ^ (?e - 52))" unfolding r by (rule 2)
    from n 3 4 show ?thesis by blast
  qed
qed

section \<open>Engine: what a call leaves in the database\<close>

lemmas engine_eval =
  completeStep_def completedStep_def processStepCompletion_def completeProcess_def
  updateCompletionPercentage_def determineNextSteps_def evaluateCondition_def truthy_def
  canComplete_def StepInstance_findById_def StepInstance_save_def
  startProcess_def createStepInstance_def StepInstance_insert_def
  ProcessHistory_create_def Notification_create_def sendTaskNotification_def
  newStepInstance_def setAssignment_def setDueDate_def autoCompleteStep_def firstAssignee_def
  StepInstance_invalidPaths_def castObjectId_def isHexDigit_def hexLower_def
  String_trim_def isWhiteSpace_def
  ProcessInstance_save_def Let_def

lemmas double_eval =
  Math_round_def timesNumber_def divideNumbers_def nearestDouble_def roundHalfEven_def
  binaryExponentBelow.simps binaryExponentAbove.simps

lemmas example_data =
  draftStore_def draftProcess_def twoStepTemplate_def autoStartTemplate_def
  startDef_def endDef_def runningStore_def runningProcess_def runningStep_def
  sinkDownStore_def utcClock_def toInteger_def

lemma find_stepId: "find (\<lambda>sd. sd_stepId sd = x) xs = Some sd \<Longrightarrow> sd_stepId sd = x"
  by (induction xs) (auto split: if_splits)

lemma sendTaskNotification_frame:
  "steps (sendTaskNotification i st s) = steps s"
  "history (sendTaskNotification i st s) = history s"
  "processes (sendTaskNotification i st s) = processes s"
  "templates (sendTaskNotification i st s) = templates s"
  "users (sendTaskNotification i st s) = users s"
  "notificationFails (sendTaskNotification i st s) = notificationFails s"
  "hoursFromNow (sendTaskNotification i st s) = hoursFromNow s"
  by (simp_all add: sendTaskNotification_def Notification_create_def)

text \<open>A step instance with an invalid path is not stored: the call throws and writes nothing.\<close>

lemma createStepInstance_invalid:
  "StepInstance_invalidPaths (hoursFromNow s) sd now \<noteq> [] \<Longrightarrow>
     createStepInstance pid sd uid now s
       = (Threw (ValidationError ''StepInstance validation failed''), s)"
  by (simp add: createStepInstance_def Let_def)

lemma createStepInstance_Returned:
  "StepInstance_invalidPaths (hoursFromNow s) sd now = [] \<Longrightarrow>
     fst (createStepInstance pid sd uid now s) = Returned"
  by (simp add: createStepInstance_def StepInstance_insert_def ProcessHistory_create_def Let_def)

lemma createStepInstance_steps:
  "StepInstance_invalidPaths (hoursFromNow s) sd now = [] \<Longrightarrow>
   steps (snd (createStepInstance pid sd uid now s)) =
     steps s @ [autoCompleteStep sd uid now
                  (setDueDate (hoursFromNow s) sd now (setAssignment sd (newStepInstance pid sd)))]"
  by (simp add: createStepInstance_def StepInstance_insert_def ProcessHistory_create_def Let_def
        sendTaskNotification_frame)

lemma createStepInstance_frame:
  "processes (snd (createStepInstance pid sd uid now s)) = processes s"
  "templates (snd (createStepInstance pid sd uid now s)) = templates s"
  "users (snd (createStepInstance pid sd uid now s)) = users s"
  "notificationFails (snd (createStepInstance pid sd uid now s)) = notificationFails s"
  "hoursFromNow (snd (createStepInstance pid sd uid now s)) = hoursFromNow s"
  by (simp_all add: createStepInstance_def StepInstance_insert_def ProcessHistory_create_def
        Let_def sendTaskNotification_frame)

lemma createStepInstance_prefix:
  "length (steps s) \<le> length (steps (snd (createStepInstance pid sd uid now s)))
   \<and> take (length (steps s)) (steps (snd (createStepInstance pid sd uid now s))) = steps s"
  by (simp add: createStepInstance_def StepInstance_insert_def ProcessHistory_create_def
        Let_def sendTaskNotification_frame)

lemma built_step_fields:
  "si_stepId (autoCompleteStep sd uid now
     (setDueDate h sd now (setAssignment sd (newStepInstance pid sd))))
     = String_trim (sd_stepId sd)"
  "si_processInstanceId (autoCompleteStep sd uid now
     (setDueDate h sd now (setAssignment sd (newStepInstance pid sd)))) = pid"
  "si_status (autoCompleteStep sd uid now
     (setDueDate h sd now (setAssignment sd (newStepInstance pid sd))))
     = (if sd_type sd = ServiceTask \<or> sd_autoComplete sd then StepCompleted else Pending)"
  "si_escalated (autoCompleteStep sd uid now
     (setDueDate h sd now (setAssignment sd (newStepInstance pid sd)))) = False"
  "si_escalationLevel (autoCompleteStep sd uid now
     (setDueDate h sd now (setAssignment sd (newStepInstance pid sd)))) = 0"
  by (simp_all add: autoCompleteStep_def setDueDate_def setAssignment_def newStepInstance_def
        split: option.splits js_date.splits)

lemma startProcess_draft:
  assumes "processes s pid = Some inst" "pi_status inst = Draft"
    "templates s (pi_processTemplateId inst) = Some tpl"
    "find (\<lambda>sd. sd_stepId sd = pt_startStep tpl) (pt_steps tpl) = Some sd"
    "StepInstance_invalidPaths (hoursFromNow s) sd now = []"
  shows "fst (startProcess pid uid now s) = Returned"
    and "processes (snd (startProcess pid uid now s)) pid
          = Some (inst\<lparr>pi_status := Active, pi_startDate := Some now,
                        pi_currentSteps := [String_trim (pt_startStep tpl)]\<rparr>)"
    and "steps (snd (startProcess pid uid now s))
          = steps s @ [autoCompleteStep sd uid now
                         (setDueDate (hoursFromNow s) sd now
                            (setAssignment sd (newStepInstance pid sd)))]"
    and "history (snd (startProcess pid uid now s))
          = history (snd (createStepInstance pid sd uid now s)) @
            [\<lparr>h_processInstanceId = pid, h_stepInstanceId = None,
              h_action = ''process_started'', h_performedBy = Some uid,
              h_fromStatus = Some ''draft'', h_toStatus = Some ''active''\<rparr>]"
proof -
  obtain s1 where c: "createStepInstance pid sd uid now s = (Returned, s1)"
    using createStepInstance_Returned [OF assms(5), of pid uid]
    by (cases "createStepInstance pid sd uid now s") auto
  have s1: "s1 = snd (createStepInstance pid sd uid now s)" using c by simp
  have id: "sd_stepId sd = pt_startStep tpl" using assms(4) by (rule find_stepId)
  have sp: "startProcess pid uid now s =
     (Returned,
      (ProcessInstance_save pid
         (inst\<lparr>pi_status := Active, pi_startDate := Some now,
               pi_currentSteps := [String_trim (pt_startStep tpl)]\<rparr>) s1)
        \<lparr>history := history s1 @
           [\<lparr>h_processInstanceId = pid, h_stepInstanceId = None,
             h_action = ''process_started'', h_performedBy = Some uid,
             h_fromStatus = Some ''draft'', h_toStatus = Some ''active''\<rparr>]\<rparr>)"
    using assms(1-4) c id
    by (simp add: startProcess_def ProcessHistory_create_def ProcessInstance_save_def Let_def)
  show "fst (startProcess pid uid now s) = Returned" by (simp add: sp)
  show "processes (snd (startProcess pid uid now s)) pid
          = Some (inst\<lparr>pi_status := Active, pi_startDate := Some now,
                        pi_currentSteps := [String_trim (pt_startStep tpl)]\<rparr>)"
    by (simp add: sp ProcessInstance_save_def)
  show "steps (snd (startProcess pid uid now s))
          = steps s @ [autoCompleteStep sd uid now
                         (setDueDate (hoursFromNow s) sd now
                            (setAssignment sd (newStepInstance pid sd)))]"
    by (simp add: sp ProcessInstance_save_def s1 createStepInstance_steps [OF assms(5)])
  show "history (snd (startProcess pid uid now s))
          = history (snd (createStepInstance pid sd uid now s)) @
            [\<lparr>h_processInstanceId = pid, h_stepInstanceId = None,
              h_action = ''process_started'', h_performedBy = Some uid,
              h_fromStatus = Some ''draft'', h_toStatus = Some ''active''\<rparr>]"
    by (simp add: sp ProcessInstance_save_def s1)
qed

text \<open>
  A start step whose instance does not validate: \<^verbatim>\<open>startProcess\<close> throws the
  validation error of \<^verbatim>\<open>createStepInstance\<close> before its own \<^verbatim>\<open>save()\<close>, and the
  database is as before.
\<close>

lemma startProcess_invalid:
  assumes "processes s pid = Some inst" "pi_status inst = Draft"
    "templates s (pi_processTemplateId inst) = Some tpl"
    "find (\<lambda>sd. sd_stepId sd = pt_startStep tpl) (pt_steps tpl) = Some sd"
    "StepInstance_invalidPaths (hoursFromNow s) sd now \<noteq> []"
  shows "startProcess pid uid now s
           = (Threw (ValidationError ''StepInstance validation failed''), s)"
  using assms(1-4) by (simp add: startProcess_def createStepInstance_invalid [OF assms(5)])

text \<open>
  A process instance whose template is gone: \<^verbatim>\<open>startProcess\<close> ends in the
  TypeError of \<^verbatim>\<open>template.steps\<close>, not in the 404 that \<^verbatim>\<open>completeStep\<close> throws
  for a missing template.
\<close>

lemma startProcess_template_missing:
  "processes s pid = Some inst \<Longrightarrow> pi_status inst = Draft
   \<Longrightarrow> templates s (pi_processTemplateId inst) = None
   \<Longrightarrow> startProcess pid uid now s = (Threw TypeError, s)"
  by (simp add: startProcess_def)

text \<open>
  C3, as stated, fails: process 8 is a draft whose template has a start step
  with \<^verbatim>\<open>autoComplete\<close>. \<^verbatim>\<open>startProcess\<close> succeeds, and the one step instance it
  creates is already completed: no step instance is pending or in progress.
  And process 7 of the second database is a draft whose start step names its
  assignee by a user name: the step instance does not validate, and
  \<^verbatim>\<open>startProcess\<close> throws the validation error and changes nothing.
\<close>

theorem startProcess_autoComplete_start_not_live:
  "map_option pi_status (processes draftStore 8) = Some Draft
   \<and> fst (startProcess 8 carolId 1000 draftStore) = Returned
   \<and> map si_status (steps (snd (startProcess 8 carolId 1000 draftStore))) = [StepCompleted]
   \<and> filter liveStatus (steps (snd (startProcess 8 carolId 1000 draftStore))) = []
   \<and> map_option pi_status (processes namedStartStore 7) = Some Draft
   \<and> startProcess 7 carolId 1000 namedStartStore
       = (Threw (ValidationError ''StepInstance validation failed''), namedStartStore)"
proof -
  have a: "map_option pi_status (processes draftStore 8) = Some Draft
   \<and> fst (startProcess 8 carolId 1000 draftStore) = Returned
   \<and> map si_status (steps (snd (startProcess 8 carolId 1000 draftStore))) = [StepCompleted]
   \<and> filter liveStatus (steps (snd (startProcess 8 carolId 1000 draftStore))) = []"
    by (simp add: engine_eval example_data liveStatus_def)
  have b: "map_option pi_status (processes namedStartStore 7) = Some Draft"
    by (simp add: namedStartStore_def example_data)
  have c: "startProcess 7 carolId 1000 namedStartStore
       = (Threw (ValidationError ''StepInstance validation failed''), namedStartStore)"
    by (simp add: engine_eval namedStartStore_def example_data)
  from a b c show ?thesis by simp
qed

text \<open>
  C3, amended. \<^verbatim>\<open>startProcess\<close> on a missing instance fails with the 404
  \<^verbatim>\<open>AppError\<close> and on an instance that is not a draft with the 400 \<^verbatim>\<open>AppError\<close>,
  both leaving the database unchanged. On a draft whose template exists and
  defines the start step, and whose start step instance validates, it
  succeeds: the instance becomes active with \<^verbatim>\<open>startDate = now\<close> and
  \<^verbatim>\<open>currentSteps\<close> exactly the (trimmed) start step, exactly one step instance is
  created, for the start step, pending unless the start step is a service task
  or has \<^verbatim>\<open>autoComplete\<close>, in which case it is created completed, and the last
  history entry is \<^verbatim>\<open>process_started\<close>.
\<close>

theorem startProcess_transitions:
  "(processes s pid = None \<longrightarrow>
      startProcess pid uid now s = (Threw (AppError ''Process instance not found'' 404), s))
   \<and> (\<forall>inst. processes s pid = Some inst \<and> pi_status inst \<noteq> Draft \<longrightarrow>
        startProcess pid uid now s
          = (Threw (AppError ''Process can only be started from draft status'' 400), s))
   \<and> (\<forall>inst tpl sd.
        processes s pid = Some inst \<and> pi_status inst = Draft
        \<and> templates s (pi_processTemplateId inst) = Some tpl
        \<and> find (\<lambda>sd. sd_stepId sd = pt_startStep tpl) (pt_steps tpl) = Some sd
        \<and> StepInstance_invalidPaths (hoursFromNow s) sd now = [] \<longrightarrow>
        fst (startProcess pid uid now s) = Returned
        \<and> processes (snd (startProcess pid uid now s)) pid
            = Some (inst\<lparr>pi_status := Active, pi_startDate := Some now,
                         pi_currentSteps := [String_trim (pt_startStep tpl)]\<rparr>)
        \<and> (\<exists>st. steps (snd (startProcess pid uid now s)) = steps s @ [st]
              \<and> si_processInstanceId st = pid
              \<and> si_stepId st = String_trim (pt_startStep tpl)
              \<and> si_status st = (if sd_type sd = ServiceTask \<or> sd_autoComplete sd
                                 then StepCompleted else Pending))
        \<and> last (history (snd (startProcess pid uid now s)))
            = \<lparr>h_processInstanceId = pid, h_stepInstanceId = None,
               h_action = ''process_started'', h_performedBy = Some uid,
               h_fromStatus = Some ''draft'', h_toStatus = Some ''active''\<rparr>)"
proof (intro conjI allI impI)
  assume "processes s pid = None"
  then show "startProcess pid uid now s = (Threw (AppError ''Process instance not found'' 404), s)"
    by (simp add: startProcess_def)
next
  fix inst
  assume "processes s pid = Some inst \<and> pi_status inst \<noteq> Draft"
  then show "startProcess pid uid now s
          = (Threw (AppError ''Process can only be started from draft status'' 400), s)"
    by (simp add: startProcess_def)
next
  fix inst tpl sd
  assume h: "processes s pid = Some inst \<and> pi_status inst = Draft
        \<and> templates s (pi_processTemplateId inst) = Some tpl
        \<and> find (\<lambda>sd. sd_stepId sd = pt_startStep tpl) (pt_steps tpl) = Some sd
        \<and> StepInstance_invalidPaths (hoursFromNow s) sd now = []"
  then have h1: "processes s pid = Some inst" and h2: "pi_status inst = Draft"
    and h3: "templates s (pi_processTemplateId inst) = Some tpl"
    and h4: "find (\<lambda>sd. sd_stepId sd = pt_startStep tpl) (pt_steps tpl) = Some sd"
    and h5: "StepInstance_invalidPaths (hoursFromNow s) sd now = []"
    by simp_all
  have id: "sd_stepId sd = pt_startStep tpl" using h4 by (rule find_stepId)
  show "fst (startProcess pid uid now s) = Returned"
    by (rule startProcess_draft(1) [OF h1 h2 h3 h4 h5])
  show "processes (snd (startProcess pid uid now s)) pid
            = Some (inst\<lparr>pi_status := Active, pi_startDate := Some now,
                         pi_currentSteps := [String_trim (pt_startStep tpl)]\<rparr>)"
    by (rule startProcess_draft(2) [OF h1 h2 h3 h4 h5])
  show "\<exists>st. steps (snd (startProcess pid uid now s)) = steps s @ [st]
              \<and> si_processInstanceId st = pid
              \<and> si_stepId st = String_trim (pt_startStep tpl)
              \<and> si_status st = (if sd_type sd = ServiceTask \<or> sd_autoComplete sd
                                 then StepCompleted else Pending)"
    using id by (simp add: startProcess_draft(3) [OF h1 h2 h3 h4 h5] built_step_fields)
  show "last (history (snd (startProcess pid uid now s)))
            = \<lparr>h_processInstanceId = pid, h_stepInstanceId = None,
               h_action = ''process_started'', h_performedBy = Some uid,
               h_fromStatus = Some ''draft'', h_toStatus = Some ''active''\<rparr>"
    by (simp add: startProcess_draft(4) [OF h1 h2 h3 h4 h5])
qed

theorem startProcess_transitions_witness:
  "processes draftStore 9 = None
   \<and> startProcess 9 carolId 1000 draftStore
       = (Threw (AppError ''Process instance not found'' 404), draftStore)
   \<and> processes runningStore 7 = Some runningProcess \<and> pi_status runningProcess \<noteq> Draft
   \<and> startProcess 7 carolId 1000 runningStore
       = (Threw (AppError ''Process can only be started from draft status'' 400), runningStore)
   \<and> processes draftStore 7 = Some draftProcess \<and> pi_status draftProcess = Draft
   \<and> templates draftStore (pi_processTemplateId draftProcess) = Some twoStepTemplate
   \<and> find (\<lambda>sd. sd_stepId sd = pt_startStep twoStepTemplate) (pt_steps twoStepTemplate)
       = Some startDef
   \<and> StepInstance_invalidPaths (hoursFromNow draftStore) startDef 1000 = []
   \<and> fst (startProcess 7 carolId 1000 draftStore) = Returned
   \<and> processes (snd (startProcess 7 carolId 1000 draftStore)) 7
       = Some (draftProcess\<lparr>pi_status := Active, pi_startDate := Some 1000,
                            pi_currentSteps := [''start'']\<rparr>)"
proof -
  have a: "processes draftStore 9 = None" by (simp add: draftStore_def)
  have b: "processes runningStore 7 = Some runningProcess \<and> pi_status runningProcess \<noteq> Draft"
    by (simp add: runningStore_def runningProcess_def draftStore_def)
  have c: "processes draftStore 7 = Some draftProcess \<and> pi_status draftProcess = Draft
        \<and> templates draftStore (pi_processTemplateId draftProcess) = Some twoStepTemplate
        \<and> find (\<lambda>sd. sd_stepId sd = pt_startStep twoStepTemplate) (pt_steps twoStepTemplate)
            = Some startDef"
    by (simp add: draftStore_def draftProcess_def twoStepTemplate_def startDef_def)
  have v: "StepInstance_invalidPaths (hoursFromNow draftStore) startDef 1000 = []"
    by (simp add: StepInstance_invalidPaths_def firstAssignee_def castObjectId_def
          isHexDigit_def String_trim_def isWhiteSpace_def example_data)
  have d: "String_trim (pt_startStep twoStepTemplate) = ''start''"
    by (simp add: twoStepTemplate_def String_trim_def isWhiteSpace_def)
  have r1: "startProcess 9 carolId 1000 draftStore
       = (Threw (AppError ''Process instance not found'' 404), draftStore)"
    using a startProcess_transitions [of draftStore 9 carolId 1000] by blast
  have r2: "startProcess 7 carolId 1000 runningStore
       = (Threw (AppError ''Process can only be started from draft status'' 400), runningStore)"
    using b startProcess_transitions [of runningStore 7 carolId 1000] by blast
  have r3: "fst (startProcess 7 carolId 1000 draftStore) = Returned
   \<and> processes (snd (startProcess 7 carolId 1000 draftStore)) 7
       = Some (draftProcess\<lparr>pi_status := Active, pi_startDate := Some 1000,
                            pi_currentSteps := [String_trim (pt_startStep twoStepTemplate)]\<rparr>)"
    using c v startProcess_transitions [of draftStore 7 carolId 1000] by blast
  from a b c v r1 r2 r3 show ?thesis by (simp only: d simp_thms)
qed

section \<open>Engine: completing a step\<close>

lemma nextStepsValidate_Cons:
  "nextStepsValidate h tpl (i # ids) now =
     ((case find (\<lambda>sd. sd_stepId sd = i) (pt_steps tpl) of
         None \<Rightarrow> True
       | Some nts \<Rightarrow> StepInstance_invalidPaths h nts now = [])
      \<and> nextStepsValidate h tpl ids now)"
  by (simp add: nextStepsValidate_def)

lemma createNextSteps_Returned:
  "nextStepsValidate (hoursFromNow s) tpl ids now \<Longrightarrow>
     fst (createNextSteps ids tpl pid p uid now s) = Returned"
proof (induction ids arbitrary: p s)
  case Nil
  then show ?case by simp
next
  case (Cons i ids)
  from Cons.prems have rest: "nextStepsValidate (hoursFromNow s) tpl ids now"
    by (simp add: nextStepsValidate_Cons)
  show ?case
  proof (cases "find (\<lambda>sd. sd_stepId sd = i) (pt_steps tpl)")
    case None
    then show ?thesis using Cons.IH [OF rest] by simp
  next
    case (Some nts)
    with Cons.prems have v: "StepInstance_invalidPaths (hoursFromNow s) nts now = []"
      by (simp add: nextStepsValidate_Cons)
    obtain s1 where c: "createStepInstance pid nts uid now s = (Returned, s1)"
      using createStepInstance_Returned [OF v, of pid uid]
      by (cases "createStepInstance pid nts uid now s") auto
    have "hoursFromNow s1 = hoursFromNow s"
      using createStepInstance_frame(5) [of pid nts uid now s] c by simp
    with rest have "nextStepsValidate (hoursFromNow s1) tpl ids now" by simp
    from Cons.IH [OF this] Some c show ?thesis by simp
  qed
qed

lemma createNextSteps_frame:
  "templates (snd (snd (createNextSteps ids tpl pid p uid now s))) = templates s
   \<and> processes (snd (snd (createNextSteps ids tpl pid p uid now s))) = processes s
   \<and> users (snd (snd (createNextSteps ids tpl pid p uid now s))) = users s
   \<and> notificationFails (snd (snd (createNextSteps ids tpl pid p uid now s))) = notificationFails s
   \<and> hoursFromNow (snd (snd (createNextSteps ids tpl pid p uid now s))) = hoursFromNow s
   \<and> length (steps s) \<le> length (steps (snd (snd (createNextSteps ids tpl pid p uid now s))))
   \<and> take (length (steps s)) (steps (snd (snd (createNextSteps ids tpl pid p uid now s)))) = steps s"
proof (induction ids arbitrary: p s)
  case Nil
  then show ?case by simp
next
  case (Cons i ids)
  show ?case
  proof (cases "find (\<lambda>sd. sd_stepId sd = i) (pt_steps tpl)")
    case None
    then show ?thesis using Cons.IH [of p s] by simp
  next
    case (Some nts)
    obtain out s1 where c: "createStepInstance pid nts uid now s = (out, s1)"
      by (cases "createStepInstance pid nts uid now s")
    have s1: "s1 = snd (createStepInstance pid nts uid now s)" using c by simp
    have f: "templates s1 = templates s" "processes s1 = processes s" "users s1 = users s"
      "notificationFails s1 = notificationFails s" "hoursFromNow s1 = hoursFromNow s"
      by (simp_all add: s1 createStepInstance_frame)
    have g: "length (steps s) \<le> length (steps s1)"
      "take (length (steps s)) (steps s1) = steps s"
      using createStepInstance_prefix [of s pid nts uid now] by (simp_all add: s1)
    show ?thesis
    proof (cases out)
      case (Threw e)
      with Some c f g show ?thesis by simp
    next
      case Returned
      let ?p1 = "p\<lparr>pi_currentSteps := pi_currentSteps p @ [String_trim i]\<rparr>"
      let ?r = "createNextSteps ids tpl pid ?p1 uid now s1"
      have r: "createNextSteps (i # ids) tpl pid p uid now s = ?r"
        using Some c Returned by simp
      note ih = Cons.IH [of ?p1 s1]
      from ih have t1: "take (length (steps s1)) (steps (snd (snd ?r))) = steps s1" by simp
      have "take (length (steps s)) (take (length (steps s1)) (steps (snd (snd ?r))))
              = take (length (steps s)) (steps (snd (snd ?r)))"
        using g(1) by (simp add: min_def)
      with t1 g(2) have t2: "take (length (steps s)) (steps (snd (snd ?r))) = steps s" by simp
      from ih g(1) have l: "length (steps s) \<le> length (steps (snd (snd ?r)))" by linarith
      from ih f t2 l show ?thesis unfolding r by simp
    qed
  qed
qed

text \<open>The loop changes nothing but \<^verbatim>\<open>currentSteps\<close> of the in-memory process instance.\<close>

lemma createNextSteps_process:
  "\<exists>cs. fst (snd (createNextSteps ids tpl pid p uid now s)) = p\<lparr>pi_currentSteps := cs\<rparr>"
proof (induction ids arbitrary: p s)
  case Nil
  have "p = p\<lparr>pi_currentSteps := pi_currentSteps p\<rparr>" by simp
  then show ?case by (simp only: createNextSteps.simps fst_conv snd_conv) blast
next
  case (Cons i ids)
  show ?case
  proof (cases "find (\<lambda>sd. sd_stepId sd = i) (pt_steps tpl)")
    case None
    then show ?thesis using Cons.IH [of p s] by simp
  next
    case (Some nts)
    obtain out s1 where c: "createStepInstance pid nts uid now s = (out, s1)"
      by (cases "createStepInstance pid nts uid now s")
    show ?thesis
    proof (cases out)
      case (Threw e)
      have "p = p\<lparr>pi_currentSteps := pi_currentSteps p\<rparr>" by simp
      moreover have "fst (snd (createNextSteps (i # ids) tpl pid p uid now s)) = p"
        using Some c Threw by simp
      ultimately show ?thesis by metis
    next
      case Returned
      let ?p1 = "p\<lparr>pi_currentSteps := pi_currentSteps p @ [String_trim i]\<rparr>"
      have r: "createNextSteps (i # ids) tpl pid p uid now s
                 = createNextSteps ids tpl pid ?p1 uid now s1"
        using Some c Returned by simp
      from Cons.IH [of ?p1 s1] obtain cs
        where "fst (snd (createNextSteps ids tpl pid ?p1 uid now s1)) = ?p1\<lparr>pi_currentSteps := cs\<rparr>"
        by blast
      then have "fst (snd (createNextSteps (i # ids) tpl pid p uid now s))
                   = p\<lparr>pi_currentSteps := cs\<rparr>"
        unfolding r by simp
      then show ?thesis by blast
    qed
  qed
qed

lemma completeProcess_process:
  "processes (snd (completeProcess pid p uid now s)) pid
     = Some (p\<lparr>pi_status := Completed, pi_endDate := Some now,
               pi_completionPercentage := 100, pi_currentSteps := []\<rparr>)"
  by (simp add: completeProcess_def ProcessHistory_create_def Notification_create_def
        ProcessInstance_save_def Let_def)

lemma completeProcess_steps: "steps (snd (completeProcess pid p uid now s)) = steps s"
  by (simp add: completeProcess_def ProcessHistory_create_def Notification_create_def
        ProcessInstance_save_def Let_def)

lemma completeProcess_outcome:
  "\<forall>n. \<not> notificationFails s n \<Longrightarrow> fst (completeProcess pid p uid now s) = Returned"
  by (simp add: completeProcess_def ProcessHistory_create_def Notification_create_def
        ProcessInstance_save_def Let_def)

lemma updateCompletionPercentage_pct:
  "pi_completionPercentage (fst (updateCompletionPercentage pid p s))
     = (if totalStepCount pid s > 0
        then Math_round (timesNumber
               (divideNumbers (completedStepCount pid s) (totalStepCount pid s)) 100)
        else 0)"
  by (simp add: updateCompletionPercentage_def Let_def totalStepCount_def completedStepCount_def)

lemma updateCompletionPercentage_frame:
  "steps (snd (updateCompletionPercentage pid p s)) = steps s"
  "pi_status (fst (updateCompletionPercentage pid p s)) = pi_status p"
  "pi_endDate (fst (updateCompletionPercentage pid p s)) = pi_endDate p"
  "pi_currentSteps (fst (updateCompletionPercentage pid p s)) = pi_currentSteps p"
  by (simp_all add: updateCompletionPercentage_def Let_def ProcessInstance_save_def)

text \<open>
  \<^verbatim>\<open>processStepCompletion\<close> with the template and the template step at hand: an
  error of the loop is thrown on with the database as the loop left it.
\<close>

lemma processStepCompletion_unfold:
  assumes t: "templates s (pi_processTemplateId p) = Some tpl"
    and f: "find (\<lambda>sd. sd_stepId sd = si_stepId st) (pt_steps tpl) = Some sd"
  shows "processStepCompletion st pid p uid now s =
     (let next = determineNextSteps sd st (si_variables st ''decision'');
          r = createNextSteps next tpl pid
                (p\<lparr>pi_currentSteps :=
                    map String_trim
                      (filter (\<lambda>stepId. stepId \<noteq> si_stepId st) (pi_currentSteps p))\<rparr>)
                uid now s
      in if fst r \<noteq> Returned then (fst r, snd (snd r))
         else if next = [] \<or> list_all (\<lambda>stepId. stepId \<in> set (pt_endSteps tpl)) next
         then completeProcess pid (fst (snd r)) uid now (snd (snd r))
         else (Returned,
               ProcessInstance_save pid (fst (updateCompletionPercentage pid (fst (snd r)) (snd (snd r))))
                 (snd (updateCompletionPercentage pid (fst (snd r)) (snd (snd r))))))"
proof -
  let ?next = "determineNextSteps sd st (si_variables st ''decision'')"
  let ?p1 = "p\<lparr>pi_currentSteps :=
                map String_trim
                  (filter (\<lambda>stepId. stepId \<noteq> si_stepId st) (pi_currentSteps p))\<rparr>"
  obtain out p2 s1 where c: "createNextSteps ?next tpl pid ?p1 uid now s = (out, p2, s1)"
    by (cases "createNextSteps ?next tpl pid ?p1 uid now s")
  show ?thesis
  proof (cases out)
    case Returned
    with t f c show ?thesis
      by (simp add: processStepCompletion_def Let_def split: prod.splits)
  next
    case (Threw e)
    with t f c show ?thesis
      by (simp add: processStepCompletion_def Let_def)
  qed
qed

lemma processStepCompletion_branches:
  assumes t: "templates s (pi_processTemplateId p) = Some tpl"
    and f: "find (\<lambda>sd. sd_stepId sd = si_stepId st) (pt_steps tpl) = Some sd"
    and v: "nextStepsValidate (hoursFromNow s) tpl
              (determineNextSteps sd st (si_variables st ''decision'')) now"
  shows "(determineNextSteps sd st (si_variables st ''decision'') = []
          \<or> (\<forall>i \<in> set (determineNextSteps sd st (si_variables st ''decision'')).
                i \<in> set (pt_endSteps tpl))
         \<longrightarrow> processes (snd (processStepCompletion st pid p uid now s)) pid
                = Some (p\<lparr>pi_status := Completed, pi_endDate := Some now,
                         pi_completionPercentage := 100, pi_currentSteps := []\<rparr>))
      \<and> (\<not> (determineNextSteps sd st (si_variables st ''decision'') = []
          \<or> (\<forall>i \<in> set (determineNextSteps sd st (si_variables st ''decision'')).
                i \<in> set (pt_endSteps tpl)))
         \<longrightarrow> fst (processStepCompletion st pid p uid now s) = Returned
           \<and> (\<exists>p'. processes (snd (processStepCompletion st pid p uid now s)) pid = Some p'
                 \<and> pi_status p' = pi_status p \<and> pi_endDate p' = pi_endDate p
                 \<and> pi_completionPercentage p'
                     = (if totalStepCount pid (snd (processStepCompletion st pid p uid now s)) > 0
                        then Math_round (timesNumber
                               (divideNumbers
                                  (completedStepCount pid (snd (processStepCompletion st pid p uid now s)))
                                  (totalStepCount pid (snd (processStepCompletion st pid p uid now s))))
                               100)
                        else 0)))"
proof -
  let ?next = "determineNextSteps sd st (si_variables st ''decision'')"
  let ?p1 = "p\<lparr>pi_currentSteps :=
                map String_trim
                  (filter (\<lambda>stepId. stepId \<noteq> si_stepId st) (pi_currentSteps p))\<rparr>"
  let ?r = "createNextSteps ?next tpl pid ?p1 uid now s"
  have ret: "fst ?r = Returned" using v by (rule createNextSteps_Returned)
  obtain cs where "fst (snd ?r) = ?p1\<lparr>pi_currentSteps := cs\<rparr>"
    using createNextSteps_process [of ?next tpl pid ?p1 uid now s] by blast
  then have p2: "fst (snd ?r) = p\<lparr>pi_currentSteps := cs\<rparr>" by simp
  show ?thesis
  proof (intro conjI impI)
    assume "?next = [] \<or> (\<forall>i \<in> set ?next. i \<in> set (pt_endSteps tpl))"
    then have b: "?next = [] \<or> list_all (\<lambda>stepId. stepId \<in> set (pt_endSteps tpl)) ?next"
      by (simp add: list_all_iff)
    have "processStepCompletion st pid p uid now s
            = completeProcess pid (fst (snd ?r)) uid now (snd (snd ?r))"
      using ret b by (simp add: processStepCompletion_unfold [OF t f] Let_def)
    then show "processes (snd (processStepCompletion st pid p uid now s)) pid
                = Some (p\<lparr>pi_status := Completed, pi_endDate := Some now,
                         pi_completionPercentage := 100, pi_currentSteps := []\<rparr>)"
      by (simp add: completeProcess_process p2)
  next
    assume n: "\<not> (?next = [] \<or> (\<forall>i \<in> set ?next. i \<in> set (pt_endSteps tpl)))"
    then have n1: "?next \<noteq> []"
      and n2: "\<not> list_all (\<lambda>stepId. stepId \<in> set (pt_endSteps tpl)) ?next"
      by (auto simp: list_all_iff)
    let ?u = "updateCompletionPercentage pid (fst (snd ?r)) (snd (snd ?r))"
    have u: "processStepCompletion st pid p uid now s
               = (Returned, ProcessInstance_save pid (fst ?u) (snd ?u))"
      using ret n1 n2 by (simp add: processStepCompletion_unfold [OF t f] Let_def)
    show "fst (processStepCompletion st pid p uid now s) = Returned"
      by (simp add: u)
    show "\<exists>p'. processes (snd (processStepCompletion st pid p uid now s)) pid = Some p'
                 \<and> pi_status p' = pi_status p \<and> pi_endDate p' = pi_endDate p
                 \<and> pi_completionPercentage p'
                     = (if totalStepCount pid (snd (processStepCompletion st pid p uid now s)) > 0
                        then Math_round (timesNumber
                               (divideNumbers
                                  (completedStepCount pid (snd (processStepCompletion st pid p uid now s)))
                                  (totalStepCount pid (snd (processStepCompletion st pid p uid now s))))
                               100)
                        else 0)"
      by (simp add: u ProcessInstance_save_def updateCompletionPercentage_pct
            updateCompletionPercentage_frame totalStepCount_def completedStepCount_def p2)
  qed
qed

lemma processStepCompletion_steps_prefix:
  "length (steps s) \<le> length (steps (snd (processStepCompletion st pid p uid now s)))
   \<and> take (length (steps s)) (steps (snd (processStepCompletion st pid p uid now s))) = steps s"
proof (cases "templates s (pi_processTemplateId p)")
  case None
  then show ?thesis by (simp add: processStepCompletion_def)
next
  case (Some tpl)
  show ?thesis
  proof (cases "find (\<lambda>sd. sd_stepId sd = si_stepId st) (pt_steps tpl)")
    case None
    with Some show ?thesis by (simp add: processStepCompletion_def)
  next
    case (Some sd)
    note t = \<open>templates s (pi_processTemplateId p) = Some tpl\<close>
    show ?thesis
      using createNextSteps_frame
        [of "determineNextSteps sd st (si_variables st ''decision'')" tpl pid
            "p\<lparr>pi_currentSteps :=
                map String_trim
                  (filter (\<lambda>stepId. stepId \<noteq> si_stepId st) (pi_currentSteps p))\<rparr>"
            uid now s]
      by (simp add: processStepCompletion_unfold [OF t Some] Let_def completeProcess_steps
            updateCompletionPercentage_frame ProcessInstance_save_def)
  qed
qed

lemma processStepCompletion_Returned:
  assumes t: "templates s (pi_processTemplateId p) = Some tpl"
    and f: "find (\<lambda>sd. sd_stepId sd = si_stepId st) (pt_steps tpl) = Some sd"
    and v: "nextStepsValidate (hoursFromNow s) tpl
              (determineNextSteps sd st (si_variables st ''decision'')) now"
    and ok: "\<forall>n. \<not> notificationFails s n"
  shows "fst (processStepCompletion st pid p uid now s) = Returned"
proof -
  let ?r = "createNextSteps (determineNextSteps sd st (si_variables st ''decision'')) tpl pid
              (p\<lparr>pi_currentSteps :=
                  map String_trim
                    (filter (\<lambda>stepId. stepId \<noteq> si_stepId st) (pi_currentSteps p))\<rparr>)
              uid now s"
  have ret: "fst ?r = Returned" using v by (rule createNextSteps_Returned)
  have "notificationFails (snd (snd ?r)) = notificationFails s"
    using createNextSteps_frame by blast
  with ok have "\<forall>n. \<not> notificationFails (snd (snd ?r)) n" by simp
  then have "fst (completeProcess pid (fst (snd ?r)) uid now (snd (snd ?r))) = Returned"
    by (rule completeProcess_outcome)
  with ret show ?thesis
    by (simp add: processStepCompletion_unfold [OF t f] Let_def)
qed

text \<open>A next step instance that does not validate: the error reaches the caller.\<close>

lemma createNextSteps_invalid_first:
  assumes "find (\<lambda>sd. sd_stepId sd = i) (pt_steps tpl) = Some nts"
    and "StepInstance_invalidPaths (hoursFromNow s) nts now \<noteq> []"
  shows "createNextSteps (i # ids) tpl pid p uid now s
           = (Threw (ValidationError ''StepInstance validation failed''), p, s)"
  using assms(1) by (simp add: createStepInstance_invalid [OF assms(2)])

lemma completeStep_forbidden:
  assumes "StepInstance_findById sid s = Some st"
    "processes s (si_processInstanceId st) = Some p"
    "templates s (pi_processTemplateId p) = Some tpl"
    "si_assignedTo st = Some X" "X \<noteq> actor"
  shows "completeStep sid actor formData decision now s
          = (Threw (AppError ''You are not authorized to complete this step'' 403), s)"
  using assms by (simp add: completeStep_def canComplete_def)

lemma completeStep_authorized:
  assumes a1: "StepInstance_findById sid s = Some st"
    and a2: "processes s (si_processInstanceId st) = Some p"
    and a3: "templates s (pi_processTemplateId p) = Some tpl"
    and a4: "find (\<lambda>sd. sd_stepId sd = si_stepId st) (pt_steps tpl) = Some sd"
    and a5: "si_status st = InProgress"
    and a6: "si_assignedTo st = None \<or> si_assignedTo st = Some actor"
  shows "completeStep sid actor formData decision now s =
           processStepCompletion (completedStep st actor formData decision now)
             (si_processInstanceId st) p actor now
             ((StepInstance_save sid (completedStep st actor formData decision now) s)
                \<lparr>history := history s @
                   [\<lparr>h_processInstanceId = si_processInstanceId st,
                     h_stepInstanceId = Some sid, h_action = ''step_completed'',
                     h_performedBy = Some actor, h_fromStatus = Some ''in_progress'',
                     h_toStatus = Some ''completed''\<rparr>]\<rparr>)"
proof -
  have can: "canComplete st actor" using a5 a6 by (auto simp: canComplete_def)
  have id: "si_stepId (completedStep st actor formData decision now) = si_stepId st"
    by (simp add: completedStep_def Let_def)
  show ?thesis
    using a1 a2 a3 a4 can
    by (simp add: completeStep_def ProcessHistory_create_def StepInstance_save_def
          completedStep_def Let_def)
qed

lemma completeStep_authorized_result:
  assumes a1: "StepInstance_findById sid s = Some st"
    and a2: "processes s (si_processInstanceId st) = Some p"
    and a3: "templates s (pi_processTemplateId p) = Some tpl"
    and a4: "find (\<lambda>sd. sd_stepId sd = si_stepId st) (pt_steps tpl) = Some sd"
    and a5: "si_status st = InProgress"
    and a6: "si_assignedTo st = None \<or> si_assignedTo st = Some actor"
  shows "StepInstance_findById sid (snd (completeStep sid actor formData decision now s))
           = Some (completedStep st actor formData decision now)"
    and "(\<forall>n. \<not> notificationFails s n)
         \<and> nextStepsValidate (hoursFromNow s) tpl
             (determineNextSteps sd (completedStep st actor formData decision now)
                (si_variables (completedStep st actor formData decision now) ''decision'')) now
           \<longrightarrow> fst (completeStep sid actor formData decision now s) = Returned"
proof -
  let ?st2 = "completedStep st actor formData decision now"
  let ?s2 = "(StepInstance_save sid ?st2 s)
                \<lparr>history := history s @
                   [\<lparr>h_processInstanceId = si_processInstanceId st,
                     h_stepInstanceId = Some sid, h_action = ''step_completed'',
                     h_performedBy = Some actor, h_fromStatus = Some ''in_progress'',
                     h_toStatus = Some ''completed''\<rparr>]\<rparr>"
  have u: "completeStep sid actor formData decision now s =
             processStepCompletion ?st2 (si_processInstanceId st) p actor now ?s2"
    by (rule completeStep_authorized [OF a1 a2 a3 a4 a5 a6])
  have lt: "sid < length (steps s)"
    using a1 by (simp add: StepInstance_findById_def split: if_splits)
  have st2: "steps ?s2 = (steps s)[sid := ?st2]" by (simp add: StepInstance_save_def)
  let ?s' = "snd (processStepCompletion ?st2 (si_processInstanceId st) p actor now ?s2)"
  have pre: "length (steps ?s2) \<le> length (steps ?s')
       \<and> take (length (steps ?s2)) (steps ?s') = steps ?s2"
    by (rule processStepCompletion_steps_prefix)
  have lt2: "sid < length (steps ?s2)" using lt by (simp only: st2 length_list_update)
  have "steps ?s' ! sid = take (length (steps ?s2)) (steps ?s') ! sid"
    using lt2 by (simp only: nth_take)
  also have "\<dots> = steps ?s2 ! sid" using pre by simp
  also have "\<dots> = ?st2" using lt by (simp only: st2 nth_list_update_eq)
  finally have "steps ?s' ! sid = ?st2" .
  moreover from pre lt2 have "sid < length (steps ?s')" by linarith
  ultimately show "StepInstance_findById sid (snd (completeStep sid actor formData decision now s))
           = Some ?st2"
    by (simp add: u StepInstance_findById_def)
  have t2: "templates ?s2 (pi_processTemplateId p) = Some tpl"
    using a3 by (simp add: StepInstance_save_def)
  have f2: "find (\<lambda>sd. sd_stepId sd = si_stepId ?st2) (pt_steps tpl) = Some sd"
    using a4 by (simp add: completedStep_def Let_def)
  show "(\<forall>n. \<not> notificationFails s n)
         \<and> nextStepsValidate (hoursFromNow s) tpl
             (determineNextSteps sd ?st2 (si_variables ?st2 ''decision'')) now
           \<longrightarrow> fst (completeStep sid actor formData decision now s) = Returned"
  proof
    assume h: "(\<forall>n. \<not> notificationFails s n)
         \<and> nextStepsValidate (hoursFromNow s) tpl
             (determineNextSteps sd ?st2 (si_variables ?st2 ''decision'')) now"
    then have n: "\<forall>n. \<not> notificationFails ?s2 n" by (simp add: StepInstance_save_def)
    from h have v: "nextStepsValidate (hoursFromNow ?s2) tpl
             (determineNextSteps sd ?st2 (si_variables ?st2 ''decision'')) now"
      by (simp add: StepInstance_save_def)
    show "fst (completeStep sid actor formData decision now s) = Returned"
      unfolding u by (rule processStepCompletion_Returned [OF t2 f2 v n])
  qed
qed

lemma completedStep_fields:
  "si_status (completedStep st actor formData decision now) = StepCompleted"
  "si_endDate (completedStep st actor formData decision now) = Some now"
  "si_completedBy (completedStep st actor formData decision now) = Some actor"
  "si_formData (completedStep st actor formData decision now) = si_formData st ++ formData"
  by (simp_all add: completedStep_def Let_def)

text \<open>
  The percentage of 23 completed step instances out of 40: the doubles of the
  source give 57, where the exact quotient rounds to 58.
\<close>

lemma percentage_23_of_40:
  "Math_round (timesNumber (divideNumbers 23 40) 100) = 57"
  by (simp add: double_eval Let_def)

lemma percentage_1_of_2:
  "Math_round (timesNumber (divideNumbers (Suc 0) 2) 100) = 50"
  by (simp add: double_eval Let_def)

text \<open>
  C2, as stated, fails. In the first database process 7 has 39 step
  instances, 23 of them completed; completing its start step creates the
  review step, which is no end step, and \<^verbatim>\<open>processStepCompletion\<close> stores
  \<^verbatim>\<open>Math.round((23 / 40) * 100)\<close>, which is 57 in doubles, while
  \<open>round (100 * 23 / 40)\<close> is 58. In the second database the review step names
  its assignee by a user name: the new step instance does not validate, and
  \<^verbatim>\<open>processStepCompletion\<close> throws the validation error without completing the
  process and without recomputing the percentage.
\<close>

theorem processStepCompletion_percentage_in_doubles:
  "fst (processStepCompletion (runningStep\<lparr>si_status := StepCompleted\<rparr>) 7 reviewProcess
          aliceId 2000 reworkedStore) = Returned
   \<and> totalStepCount 7 (snd (processStepCompletion (runningStep\<lparr>si_status := StepCompleted\<rparr>)
                               7 reviewProcess aliceId 2000 reworkedStore)) = 40
   \<and> completedStepCount 7 (snd (processStepCompletion (runningStep\<lparr>si_status := StepCompleted\<rparr>)
                                   7 reviewProcess aliceId 2000 reworkedStore)) = 23
   \<and> map_option pi_completionPercentage
        (processes (snd (processStepCompletion (runningStep\<lparr>si_status := StepCompleted\<rparr>)
                           7 reviewProcess aliceId 2000 reworkedStore)) 7) = Some 57
   \<and> round (100 * real 23 / real 40) = 58
   \<and> processStepCompletion (runningStep\<lparr>si_status := StepCompleted\<rparr>) 7 reviewProcess
        aliceId 2000 namedReviewStore
       = (Threw (ValidationError ''StepInstance validation failed''), namedReviewStore)
   \<and> map_option pi_status (processes namedReviewStore 7) = Some Active
   \<and> map_option pi_completionPercentage (processes namedReviewStore 7) = Some 0"
proof -
  let ?st = "runningStep\<lparr>si_status := StepCompleted\<rparr>"
  let ?s' = "snd (processStepCompletion ?st 7 reviewProcess aliceId 2000 reworkedStore)"
  have ret: "fst (processStepCompletion ?st 7 reviewProcess aliceId 2000 reworkedStore) = Returned"
    by (simp add: engine_eval example_data reviewTemplate_def reviewStore_def
          reviewProcess_def approveRejectStep_def reworkedStore_def)
  have st: "steps ?s'
      = [?st] @ replicate 22 (runningStep\<lparr>si_stepId := ''review'', si_status := StepCompleted\<rparr>)
        @ replicate 16 (runningStep\<lparr>si_stepId := ''review'', si_status := Skipped\<rparr>)
        @ [newStepInstance 7 approveRejectStep]"
    by (simp add: engine_eval example_data reviewTemplate_def reviewStore_def
          reviewProcess_def approveRejectStep_def reworkedStore_def)
  have tot: "totalStepCount 7 ?s' = 40"
    unfolding totalStepCount_def st by (simp add: runningStep_def newStepInstance_def)
  have com: "completedStepCount 7 ?s' = 23"
    unfolding completedStepCount_def st by (simp add: runningStep_def newStepInstance_def)
  have pct: "map_option pi_completionPercentage (processes ?s' 7)
               = Some (Math_round (timesNumber (divideNumbers 23 40) 100))"
    by (simp add: engine_eval example_data reviewTemplate_def reviewStore_def
          reviewProcess_def approveRejectStep_def reworkedStore_def)
  have exact: "round (100 * real 23 / real 40) = 58" by (simp add: round_def)
  have thr: "processStepCompletion ?st 7 reviewProcess aliceId 2000 namedReviewStore
       = (Threw (ValidationError ''StepInstance validation failed''), namedReviewStore)"
    by (simp add: engine_eval example_data namedReviewTemplate_def namedReviewStore_def
          reviewStore_def reviewProcess_def approveRejectStep_def)
  have old: "map_option pi_status (processes namedReviewStore 7) = Some Active
      \<and> map_option pi_completionPercentage (processes namedReviewStore 7) = Some 0"
    by (simp add: example_data namedReviewStore_def reviewStore_def reviewProcess_def)
  from ret tot com pct exact thr old show ?thesis
    by (simp only: percentage_23_of_40 simp_thms)
qed

text \<open>
  C2, amended. With the template and the template step of the completed step at
  hand, and when every next step instance validates,
  \<^verbatim>\<open>processStepCompletion\<close> completes the process when the next step ids are
  empty or all in \<^verbatim>\<open>endSteps\<close>: the stored instance has status completed, the
  end date, 100 percent and no current steps. Otherwise it returns, leaves
  status and end date alone, and stores the percentage
  \<^verbatim>\<open>Math.round((completedStepCount / totalStepCount) * 100)\<close> as the doubles of
  JavaScript give it, counted over the step instances of the process after the
  new ones are created (0 when there is none). Completing the start step of
  the two-step template drives process 7 to completed, 100 percent, no current
  steps.
\<close>

theorem processStepCompletion_completes_or_recomputes:
  "(templates s (pi_processTemplateId p) = Some tpl
    \<and> find (\<lambda>sd. sd_stepId sd = si_stepId st) (pt_steps tpl) = Some sd
    \<and> nextStepsValidate (hoursFromNow s) tpl
        (determineNextSteps sd st (si_variables st ''decision'')) now \<longrightarrow>
      (determineNextSteps sd st (si_variables st ''decision'') = []
         \<or> (\<forall>i \<in> set (determineNextSteps sd st (si_variables st ''decision'')).
               i \<in> set (pt_endSteps tpl))
       \<longrightarrow> processes (snd (processStepCompletion st pid p uid now s)) pid
             = Some (p\<lparr>pi_status := Completed, pi_endDate := Some now,
                       pi_completionPercentage := 100, pi_currentSteps := []\<rparr>))
      \<and> (\<not> (determineNextSteps sd st (si_variables st ''decision'') = []
              \<or> (\<forall>i \<in> set (determineNextSteps sd st (si_variables st ''decision'')).
                    i \<in> set (pt_endSteps tpl)))
       \<longrightarrow> fst (processStepCompletion st pid p uid now s) = Returned
         \<and> (\<exists>p'. processes (snd (processStepCompletion st pid p uid now s)) pid = Some p'
               \<and> pi_status p' = pi_status p \<and> pi_endDate p' = pi_endDate p
               \<and> pi_completionPercentage p'
                   = (if totalStepCount pid (snd (processStepCompletion st pid p uid now s)) > 0
                      then Math_round (timesNumber
                             (divideNumbers
                                (completedStepCount pid
                                   (snd (processStepCompletion st pid p uid now s)))
                                (totalStepCount pid
                                   (snd (processStepCompletion st pid p uid now s))))
                             100)
                      else 0))))
   \<and> fst (completeStep 0 aliceId Map.empty None 2000 runningStore) = Returned
   \<and> processes (snd (completeStep 0 aliceId Map.empty None 2000 runningStore)) 7
       = Some (runningProcess\<lparr>pi_status := Completed, pi_endDate := Some 2000,
                 pi_completionPercentage := 100, pi_currentSteps := []\<rparr>)"
  (is "?G \<and> ?S1 \<and> ?S2" is "(_ \<longrightarrow> ?B) \<and> _")
proof -
  have g: ?G
  proof (rule impI)
    assume "templates s (pi_processTemplateId p) = Some tpl
      \<and> find (\<lambda>sd. sd_stepId sd = si_stepId st) (pt_steps tpl) = Some sd
      \<and> nextStepsValidate (hoursFromNow s) tpl
          (determineNextSteps sd st (si_variables st ''decision'')) now"
    then have t: "templates s (pi_processTemplateId p) = Some tpl"
      and f: "find (\<lambda>sd. sd_stepId sd = si_stepId st) (pt_steps tpl) = Some sd"
      and v: "nextStepsValidate (hoursFromNow s) tpl
          (determineNextSteps sd st (si_variables st ''decision'')) now"
      by simp_all
    show ?B by (rule processStepCompletion_branches [OF t f v])
  qed
  have s1: ?S1 by (simp add: engine_eval example_data)
  have s2: ?S2 by (simp add: engine_eval example_data)
  show ?thesis by (rule conjI [OF g conjI [OF s1 s2]])
qed

theorem processStepCompletion_completes_or_recomputes_witness:
  "templates runningStore (pi_processTemplateId runningProcess) = Some twoStepTemplate
   \<and> find (\<lambda>sd. sd_stepId sd = si_stepId runningStep) (pt_steps twoStepTemplate) = Some startDef
   \<and> determineNextSteps startDef runningStep (si_variables runningStep ''decision'') = [''end'']
   \<and> nextStepsValidate (hoursFromNow runningStore) twoStepTemplate [''end''] 2000
   \<and> processes (snd (processStepCompletion runningStep 7 runningProcess aliceId 2000
                        runningStore)) 7
       = Some (runningProcess\<lparr>pi_status := Completed, pi_endDate := Some 2000,
                 pi_completionPercentage := 100, pi_currentSteps := []\<rparr>)
   \<and> templates reviewStore (pi_processTemplateId reviewProcess) = Some reviewTemplate
   \<and> find (\<lambda>sd. sd_stepId sd = si_stepId runningStep) (pt_steps reviewTemplate)
       = Some (hd (pt_steps reviewTemplate))
   \<and> determineNextSteps (hd (pt_steps reviewTemplate)) runningStep
        (si_variables runningStep ''decision'') = [''review'']
   \<and> nextStepsValidate (hoursFromNow reviewStore) reviewTemplate [''review''] 2000
   \<and> fst (processStepCompletion runningStep 7 reviewProcess aliceId 2000 reviewStore)
       = Returned
   \<and> map_option pi_completionPercentage
        (processes (snd (processStepCompletion runningStep 7 reviewProcess aliceId 2000
                           reviewStore)) 7) = Some 50"
proof -
  let ?sd = "hd (pt_steps reviewTemplate)"
  have a: "templates runningStore (pi_processTemplateId runningProcess) = Some twoStepTemplate
      \<and> find (\<lambda>sd. sd_stepId sd = si_stepId runningStep) (pt_steps twoStepTemplate)
          = Some startDef"
    by (simp add: example_data newStepInstance_def String_trim_def isWhiteSpace_def)
  have n1: "determineNextSteps startDef runningStep (si_variables runningStep ''decision'')
             = [''end'']"
    by (simp add: example_data newStepInstance_def determineNextSteps_def truthy_def)
  have v1: "nextStepsValidate (hoursFromNow runningStore) twoStepTemplate [''end''] 2000"
    by (simp add: nextStepsValidate_def StepInstance_invalidPaths_def String_trim_def
          isWhiteSpace_def example_data)
  have e1: "pt_endSteps twoStepTemplate = [''end'']" by (simp add: twoStepTemplate_def)
  have r1: "processes (snd (processStepCompletion runningStep 7 runningProcess aliceId 2000
                        runningStore)) 7
       = Some (runningProcess\<lparr>pi_status := Completed, pi_endDate := Some 2000,
                 pi_completionPercentage := 100, pi_currentSteps := []\<rparr>)"
    using a v1 processStepCompletion_completes_or_recomputes
      [of runningStore runningProcess twoStepTemplate runningStep startDef 2000 7 aliceId]
    by (simp only: n1 e1) simp
  have b: "templates reviewStore (pi_processTemplateId reviewProcess) = Some reviewTemplate
      \<and> find (\<lambda>sd. sd_stepId sd = si_stepId runningStep) (pt_steps reviewTemplate) = Some ?sd"
    by (simp add: example_data newStepInstance_def reviewTemplate_def reviewStore_def
          reviewProcess_def String_trim_def isWhiteSpace_def)
  have n2: "determineNextSteps ?sd runningStep (si_variables runningStep ''decision'')
             = [''review'']"
    by (simp add: example_data newStepInstance_def reviewTemplate_def determineNextSteps_def
          truthy_def)
  have v2: "nextStepsValidate (hoursFromNow reviewStore) reviewTemplate [''review''] 2000"
    by (simp add: nextStepsValidate_def StepInstance_invalidPaths_def String_trim_def
          isWhiteSpace_def example_data reviewTemplate_def reviewStore_def
          approveRejectStep_def)
  have e2: "pt_endSteps reviewTemplate = [''A'', ''B'']" by (simp add: reviewTemplate_def)
  have r2: "fst (processStepCompletion runningStep 7 reviewProcess aliceId 2000 reviewStore)
       = Returned
     \<and> (\<exists>p'. processes (snd (processStepCompletion runningStep 7 reviewProcess aliceId 2000
                                reviewStore)) 7 = Some p'
           \<and> pi_completionPercentage p'
               = (if totalStepCount 7 (snd (processStepCompletion runningStep 7 reviewProcess
                                              aliceId 2000 reviewStore)) > 0
                  then Math_round (timesNumber
                         (divideNumbers
                            (completedStepCount 7
                               (snd (processStepCompletion runningStep 7 reviewProcess
                                       aliceId 2000 reviewStore)))
                            (totalStepCount 7
                               (snd (processStepCompletion runningStep 7 reviewProcess
                                       aliceId 2000 reviewStore))))
                         100)
                  else 0))"
    using b v2 processStepCompletion_completes_or_recomputes
      [of reviewStore reviewProcess reviewTemplate runningStep ?sd 2000 7 aliceId]
    by (simp only: n2 e2) auto
  have st: "map (\<lambda>st. (si_processInstanceId st, si_status st))
              (steps (snd (processStepCompletion runningStep 7 reviewProcess aliceId 2000
                             reviewStore)))
            = [(7, StepCompleted), (7, Pending)]"
    by (simp add: engine_eval example_data reviewTemplate_def reviewStore_def
          reviewProcess_def approveRejectStep_def)
  have cnt: "totalStepCount 7 (snd (processStepCompletion runningStep 7 reviewProcess
                                      aliceId 2000 reviewStore)) = 2"
    "completedStepCount 7 (snd (processStepCompletion runningStep 7 reviewProcess
                                  aliceId 2000 reviewStore)) = Suc 0"
    using st
    by (auto simp: totalStepCount_def completedStepCount_def map_eq_Cons_conv)
  from r2 cnt
  have r3: "map_option pi_completionPercentage
        (processes (snd (processStepCompletion runningStep 7 reviewProcess aliceId 2000
                           reviewStore)) 7) = Some 50"
    by (auto simp: percentage_1_of_2)
  from a n1 v1 r1 b n2 v2 r2 r3 show ?thesis by blast
qed

text \<open>
  C4, as stated, fails: the start step of process 7 is in progress and assigned
  to the actor, and the review step that follows names its assignee by a user
  name. \<^verbatim>\<open>completeStep\<close> invoked by the assignee saves the step as completed and
  then throws the validation error of the step instance it cannot create.
\<close>

theorem completeStep_by_assignee_throws:
  "map si_status (steps namedRunningStore) = [InProgress]
   \<and> map si_assignedTo (steps namedRunningStore) = [Some aliceId]
   \<and> fst (completeStep 0 aliceId Map.empty None 2000 namedRunningStore)
       = Threw (ValidationError ''StepInstance validation failed'')
   \<and> map si_status (steps (snd (completeStep 0 aliceId Map.empty None 2000 namedRunningStore)))
       = [StepCompleted]"
  by (simp add: engine_eval example_data namedReviewTemplate_def namedRunningStore_def
        reviewProcess_def approveRejectStep_def)

text \<open>
  C4, amended. For a step instance whose process instance and template exist:
  \<^verbatim>\<open>completeStep\<close> invoked by an actor other than the assignee fails with the 403
  \<^verbatim>\<open>AppError\<close> and leaves the database unchanged. Invoked by the assignee, or on
  an unassigned step, with the step in progress and its template step defined,
  it stores the step as completed with \<^verbatim>\<open>endDate = now\<close>,
  \<^verbatim>\<open>completedBy = actor\<close> and the form data merged, and it returns when every
  next step instance validates and the notification sink accepts.
\<close>

theorem completeStep_authorization:
  "(\<forall>st p tpl X.
      StepInstance_findById sid s = Some st
      \<and> processes s (si_processInstanceId st) = Some p
      \<and> templates s (pi_processTemplateId p) = Some tpl
      \<and> si_assignedTo st = Some X \<and> X \<noteq> actor \<longrightarrow>
      completeStep sid actor formData decision now s
        = (Threw (AppError ''You are not authorized to complete this step'' 403), s))
   \<and> (\<forall>st p tpl sd.
      StepInstance_findById sid s = Some st
      \<and> processes s (si_processInstanceId st) = Some p
      \<and> templates s (pi_processTemplateId p) = Some tpl
      \<and> find (\<lambda>sd. sd_stepId sd = si_stepId st) (pt_steps tpl) = Some sd
      \<and> si_status st = InProgress
      \<and> (si_assignedTo st = None \<or> si_assignedTo st = Some actor) \<longrightarrow>
      ((\<forall>n. \<not> notificationFails s n)
       \<and> nextStepsValidate (hoursFromNow s) tpl
           (determineNextSteps sd (completedStep st actor formData decision now)
              (si_variables (completedStep st actor formData decision now) ''decision'')) now
         \<longrightarrow> fst (completeStep sid actor formData decision now s) = Returned)
      \<and> (\<exists>st'. StepInstance_findById sid (snd (completeStep sid actor formData decision now s))
                  = Some st'
             \<and> si_status st' = StepCompleted \<and> si_endDate st' = Some now
             \<and> si_completedBy st' = Some actor
             \<and> si_formData st' = si_formData st ++ formData))"
proof (rule conjI)
  show "\<forall>st p tpl X.
      StepInstance_findById sid s = Some st
      \<and> processes s (si_processInstanceId st) = Some p
      \<and> templates s (pi_processTemplateId p) = Some tpl
      \<and> si_assignedTo st = Some X \<and> X \<noteq> actor \<longrightarrow>
      completeStep sid actor formData decision now s
        = (Threw (AppError ''You are not authorized to complete this step'' 403), s)"
    using completeStep_forbidden by blast
next
  show "\<forall>st p tpl sd.
      StepInstance_findById sid s = Some st
      \<and> processes s (si_processInstanceId st) = Some p
      \<and> templates s (pi_processTemplateId p) = Some tpl
      \<and> find (\<lambda>sd. sd_stepId sd = si_stepId st) (pt_steps tpl) = Some sd
      \<and> si_status st = InProgress
      \<and> (si_assignedTo st = None \<or> si_assignedTo st = Some actor) \<longrightarrow>
      ((\<forall>n. \<not> notificationFails s n)
       \<and> nextStepsValidate (hoursFromNow s) tpl
           (determineNextSteps sd (completedStep st actor formData decision now)
              (si_variables (completedStep st actor formData decision now) ''decision'')) now
         \<longrightarrow> fst (completeStep sid actor formData decision now s) = Returned)
      \<and> (\<exists>st'. StepInstance_findById sid (snd (completeStep sid actor formData decision now s))
                  = Some st'
             \<and> si_status st' = StepCompleted \<and> si_endDate st' = Some now
             \<and> si_completedBy st' = Some actor
             \<and> si_formData st' = si_formData st ++ formData)"
  proof (intro allI, rule impI)
    fix st p tpl sd
    assume h: "StepInstance_findById sid s = Some st
      \<and> processes s (si_processInstanceId st) = Some p
      \<and> templates s (pi_processTemplateId p) = Some tpl
      \<and> find (\<lambda>sd. sd_stepId sd = si_stepId st) (pt_steps tpl) = Some sd
      \<and> si_status st = InProgress
      \<and> (si_assignedTo st = None \<or> si_assignedTo st = Some actor)"
    then have a1: "StepInstance_findById sid s = Some st"
      and a2: "processes s (si_processInstanceId st) = Some p"
      and a3: "templates s (pi_processTemplateId p) = Some tpl"
      and a4: "find (\<lambda>sd. sd_stepId sd = si_stepId st) (pt_steps tpl) = Some sd"
      and a5: "si_status st = InProgress"
      and a6: "si_assignedTo st = None \<or> si_assignedTo st = Some actor"
      by simp_all
    have r: "(\<forall>n. \<not> notificationFails s n)
       \<and> nextStepsValidate (hoursFromNow s) tpl
           (determineNextSteps sd (completedStep st actor formData decision now)
              (si_variables (completedStep st actor formData decision now) ''decision'')) now
         \<longrightarrow> fst (completeStep sid actor formData decision now s) = Returned"
      by (rule completeStep_authorized_result(2) [OF a1 a2 a3 a4 a5 a6])
    have e: "\<exists>st'. StepInstance_findById sid (snd (completeStep sid actor formData decision now s))
                  = Some st'
             \<and> si_status st' = StepCompleted \<and> si_endDate st' = Some now
             \<and> si_completedBy st' = Some actor
             \<and> si_formData st' = si_formData st ++ formData"
      by (simp add: completeStep_authorized_result(1) [OF a1 a2 a3 a4 a5 a6]
            completedStep_fields)
    show "((\<forall>n. \<not> notificationFails s n)
       \<and> nextStepsValidate (hoursFromNow s) tpl
           (determineNextSteps sd (completedStep st actor formData decision now)
              (si_variables (completedStep st actor formData decision now) ''decision'')) now
         \<longrightarrow> fst (completeStep sid actor formData decision now s) = Returned)
      \<and> (\<exists>st'. StepInstance_findById sid (snd (completeStep sid actor formData decision now s))
                  = Some st'
             \<and> si_status st' = StepCompleted \<and> si_endDate st' = Some now
             \<and> si_completedBy st' = Some actor
             \<and> si_formData st' = si_formData st ++ formData)"
      by (rule conjI [OF r e])
  qed
qed

theorem completeStep_authorization_witness:
  "StepInstance_findById 0 runningStore = Some runningStep
   \<and> processes runningStore (si_processInstanceId runningStep) = Some runningProcess
   \<and> templates runningStore (pi_processTemplateId runningProcess) = Some twoStepTemplate
   \<and> find (\<lambda>sd. sd_stepId sd = si_stepId runningStep) (pt_steps twoStepTemplate) = Some startDef
   \<and> si_assignedTo runningStep = Some aliceId \<and> aliceId \<noteq> bobId
   \<and> si_status runningStep = InProgress
   \<and> (\<forall>n. \<not> notificationFails runningStore n)
   \<and> determineNextSteps startDef
        (completedStep runningStep aliceId [''amount'' \<mapsto> ''12''] None 2000)
        (si_variables (completedStep runningStep aliceId [''amount'' \<mapsto> ''12''] None 2000)
           ''decision'') = [''end'']
   \<and> nextStepsValidate (hoursFromNow runningStore) twoStepTemplate [''end''] 2000
   \<and> completeStep 0 bobId [''amount'' \<mapsto> ''12''] None 2000 runningStore
       = (Threw (AppError ''You are not authorized to complete this step'' 403), runningStore)
   \<and> fst (completeStep 0 aliceId [''amount'' \<mapsto> ''12''] None 2000 runningStore) = Returned
   \<and> (\<exists>st'. StepInstance_findById 0
                (snd (completeStep 0 aliceId [''amount'' \<mapsto> ''12''] None 2000 runningStore))
                = Some st'
          \<and> si_status st' = StepCompleted \<and> si_completedBy st' = Some aliceId
          \<and> si_formData st' ''amount'' = Some ''12'')"
proof -
  let ?fd = "[''amount'' \<mapsto> ''12'']"
  let ?st2 = "completedStep runningStep aliceId ?fd None 2000"
  have a: "StepInstance_findById 0 runningStore = Some runningStep
     \<and> processes runningStore (si_processInstanceId runningStep) = Some runningProcess
     \<and> templates runningStore (pi_processTemplateId runningProcess) = Some twoStepTemplate
     \<and> find (\<lambda>sd. sd_stepId sd = si_stepId runningStep) (pt_steps twoStepTemplate)
         = Some startDef"
    by (simp add: example_data newStepInstance_def StepInstance_findById_def
          String_trim_def isWhiteSpace_def)
  have b: "si_assignedTo runningStep = Some aliceId \<and> aliceId \<noteq> bobId
     \<and> si_status runningStep = InProgress"
    by (simp add: runningStep_def)
  have c: "\<forall>n. \<not> notificationFails runningStore n"
    by (simp add: runningStore_def draftStore_def)
  have n: "determineNextSteps startDef ?st2 (si_variables ?st2 ''decision'') = [''end'']"
    by (simp add: example_data newStepInstance_def determineNextSteps_def truthy_def
          completedStep_def)
  have v: "nextStepsValidate (hoursFromNow runningStore) twoStepTemplate [''end''] 2000"
    by (simp add: nextStepsValidate_def StepInstance_invalidPaths_def String_trim_def
          isWhiteSpace_def example_data)
  have r1: "completeStep 0 bobId ?fd None 2000 runningStore
       = (Threw (AppError ''You are not authorized to complete this step'' 403), runningStore)"
    using a b completeStep_authorization [of 0 runningStore bobId ?fd None 2000]
    by blast
  have r2: "((\<forall>n. \<not> notificationFails runningStore n)
       \<and> nextStepsValidate (hoursFromNow runningStore) twoStepTemplate
           (determineNextSteps startDef ?st2 (si_variables ?st2 ''decision'')) 2000
         \<longrightarrow> fst (completeStep 0 aliceId ?fd None 2000 runningStore) = Returned)
      \<and> (\<exists>st'. StepInstance_findById 0
                (snd (completeStep 0 aliceId ?fd None 2000 runningStore))
                = Some st'
             \<and> si_status st' = StepCompleted \<and> si_endDate st' = Some 2000
             \<and> si_completedBy st' = Some aliceId
             \<and> si_formData st' = si_formData runningStep ++ ?fd)"
    using a b completeStep_authorization [of 0 runningStore aliceId ?fd None 2000]
    by blast
  from r2 c v have r3: "fst (completeStep 0 aliceId ?fd None 2000 runningStore) = Returned"
    by (simp only: n simp_thms)
  from r2 have r4: "\<exists>st'. StepInstance_findById 0
                (snd (completeStep 0 aliceId ?fd None 2000 runningStore))
                = Some st'
          \<and> si_status st' = StepCompleted \<and> si_completedBy st' = Some aliceId
          \<and> si_formData st' ''amount'' = Some ''12''"
    by auto
  from a b c n v r1 r3 r4 show ?thesis by blast
qed

text \<open>
  C9 on the code: with the notification sink down, completing the start step
  of the two-step process commits the step and the process as completed, and
  then \<^verbatim>\<open>completeProcess\<close> throws the failure of \<^verbatim>\<open>Notification.create\<close> again,
  through \<^verbatim>\<open>processStepCompletion\<close> and \<^verbatim>\<open>completeStep\<close> to the caller. The
  failure of the task notification inside \<^verbatim>\<open>createStepInstance\<close> has been
  swallowed before.
\<close>

theorem completeProcess_notification_failure_propagates:
  "fst (completeStep 0 aliceId Map.empty None 2000 sinkDownStore) = Threw NotificationFailure
   \<and> map_option pi_status
        (processes (snd (completeStep 0 aliceId Map.empty None 2000 sinkDownStore)) 7)
       = Some Completed
   \<and> map si_status (steps (snd (completeStep 0 aliceId Map.empty None 2000 sinkDownStore)))
       = [StepCompleted, Pending]
   \<and> notifications (snd (completeStep 0 aliceId Map.empty None 2000 sinkDownStore)) = []"
  by (simp add: engine_eval example_data)

section \<open>Escalation: what the three passes do to the step instances\<close>


lemma fold_update_length:
  "length (fold (\<lambda>doc xs. xs[fst doc := f (snd doc)]) tasks xs) = length xs"
  by (induction tasks arbitrary: xs) simp_all

lemma fold_update_nth:
  "distinct (map fst tasks) \<Longrightarrow> j < length xs \<Longrightarrow>
     fold (\<lambda>doc xs. xs[fst doc := f (snd doc)]) tasks xs ! j
       = (case map_of tasks j of None \<Rightarrow> xs ! j | Some t \<Rightarrow> f t)"
proof (induction tasks arbitrary: xs)
  case Nil
  then show ?case by simp
next
  case (Cons d tasks)
  obtain i t where d: "d = (i, t)" by (cases d)
  from Cons.prems have dist: "distinct (map fst tasks)" and notin: "i \<notin> fst ` set tasks"
    by (simp_all add: d)
  have len: "j < length (xs[i := f t])" using Cons.prems by simp
  show ?case
  proof (cases "j = i")
    case True
    from notin have "map_of tasks i = None" by (simp add: map_of_eq_None_iff)
    with True Cons.IH [OF dist len] Cons.prems show ?thesis by (simp add: d)
  next
    case False
    with Cons.IH [OF dist len] show ?thesis by (simp add: d split: option.splits)
  qed
qed

lemma find_docs_distinct:
  "distinct (map fst (filter (\<lambda>doc. P (snd doc)) (enumerate 0 xs)))"
  by (simp add: distinct_map_filter)

lemma find_docs_mem:
  "((i, t) \<in> set (filter (\<lambda>doc. P (snd doc)) (enumerate 0 xs)))
     = (i < length xs \<and> xs ! i = t \<and> P t)"
  by (auto simp: in_set_enumerate_eq)

lemma find_docs_map_of:
  "map_of (filter (\<lambda>doc. P (snd doc)) (enumerate 0 xs)) j
     = (if j < length xs \<and> P (xs ! j) then Some (xs ! j) else None)"
proof (cases "j < length xs \<and> P (xs ! j)")
  case True
  then have "(j, xs ! j) \<in> set (filter (\<lambda>doc. P (snd doc)) (enumerate 0 xs))"
    by (simp only: find_docs_mem simp_thms)
  then have "map_of (filter (\<lambda>doc. P (snd doc)) (enumerate 0 xs)) j = Some (xs ! j)"
    using find_docs_distinct [of P xs] by (simp add: map_of_eq_Some_iff)
  with True show ?thesis by simp
next
  case False
  have "j \<notin> fst ` set (filter (\<lambda>doc. P (snd doc)) (enumerate 0 xs))"
  proof
    assume "j \<in> fst ` set (filter (\<lambda>doc. P (snd doc)) (enumerate 0 xs))"
    then obtain t where "(j, t) \<in> set (filter (\<lambda>doc. P (snd doc)) (enumerate 0 xs))"
      by force
    with False show False by (simp only: find_docs_mem) blast
  qed
  then have "map_of (filter (\<lambda>doc. P (snd doc)) (enumerate 0 xs)) j = None"
    by (simp add: map_of_eq_None_iff)
  with False show ?thesis by simp
qed

lemma fold_update_find:
  "fold (\<lambda>doc ys. ys[fst doc := f (snd doc)]) (filter (\<lambda>doc. P (snd doc)) (enumerate 0 xs)) xs
     = map (\<lambda>t. if P t then f t else t) xs"
proof (rule nth_equalityI)
  show "length (fold (\<lambda>doc ys. ys[fst doc := f (snd doc)])
                 (filter (\<lambda>doc. P (snd doc)) (enumerate 0 xs)) xs)
          = length (map (\<lambda>t. if P t then f t else t) xs)"
    by (simp add: fold_update_length)
next
  fix j
  assume "j < length (fold (\<lambda>doc ys. ys[fst doc := f (snd doc)])
                        (filter (\<lambda>doc. P (snd doc)) (enumerate 0 xs)) xs)"
  then have j: "j < length xs" by (simp add: fold_update_length)
  show "fold (\<lambda>doc ys. ys[fst doc := f (snd doc)])
          (filter (\<lambda>doc. P (snd doc)) (enumerate 0 xs)) xs ! j
        = map (\<lambda>t. if P t then f t else t) xs ! j"
    using j by (simp add: fold_update_nth [OF find_docs_distinct j] find_docs_map_of)
qed



lemma notifyTargets_frame:
  "steps (snd (notifyTargets targets i t l s)) = steps s
   \<and> history (snd (notifyTargets targets i t l s)) = history s
   \<and> users (snd (notifyTargets targets i t l s)) = users s
   \<and> processes (snd (notifyTargets targets i t l s)) = processes s
   \<and> templates (snd (notifyTargets targets i t l s)) = templates s
   \<and> notificationFails (snd (notifyTargets targets i t l s)) = notificationFails s"
proof (induction targets arbitrary: s)
  case Nil
  then show ?case by simp
next
  case (Cons u targets)
  show ?case
  proof (cases "processes s (si_processInstanceId t)")
    case None
    then show ?thesis by simp
  next
    case (Some p)
    show ?thesis
    proof (cases "Notification_create (escalationNotice u i t l) s")
      case (Inl e)
      with Some show ?thesis by simp
    next
      case (Inr s1)
      then have "s1 = s\<lparr>notifications := notifications s @ [escalationNotice u i t l]\<rparr>"
        by (auto simp: Notification_create_def split: if_splits)
      with Some Inr Cons.IH [of s1] show ?thesis by simp
    qed
  qed
qed


lemma cascadeTask_frame:
  "steps (cascadeTask i t s) = (steps s)[i := t\<lparr>si_escalationLevel := si_escalationLevel t + 1\<rparr>]"
  "history (cascadeTask i t s) = history s"
  "users (cascadeTask i t s) = users s"
  "processes (cascadeTask i t s) = processes s"
  "templates (cascadeTask i t s) = templates s"
  "notificationFails (cascadeTask i t s) = notificationFails s"
  by (simp_all add: cascadeTask_def Let_def notifyTargets_frame StepInstance_save_def)


lemma cascadeLoop_frame:
  "steps (cascadeLoop tasks s)
     = fold (\<lambda>doc xs. xs[fst doc := (snd doc)\<lparr>si_escalationLevel := si_escalationLevel (snd doc) + 1\<rparr>])
         tasks (steps s)
   \<and> history (cascadeLoop tasks s) = history s
   \<and> users (cascadeLoop tasks s) = users s
   \<and> processes (cascadeLoop tasks s) = processes s
   \<and> templates (cascadeLoop tasks s) = templates s
   \<and> notificationFails (cascadeLoop tasks s) = notificationFails s"
proof (induction tasks arbitrary: s)
  case Nil
  then show ?case by simp
next
  case (Cons d tasks)
  obtain i t where d: "d = (i, t)" by (cases d)
  from Cons.IH [of "cascadeTask i t s"] show ?case
    by (simp add: d cascadeTask_frame)
qed


lemma processTaskEscalations_steps:
  "steps (processTaskEscalations now s)
     = map (\<lambda>st. if needsEscalation now st
                 then st\<lparr>si_escalationLevel := si_escalationLevel st + 1\<rparr> else st) (steps s)"
proof -
  have "steps (processTaskEscalations now s)
          = fold (\<lambda>doc xs. xs[fst doc :=
                    (\<lambda>t. t\<lparr>si_escalationLevel := si_escalationLevel t + 1\<rparr>) (snd doc)])
              (filter (\<lambda>doc. needsEscalation now (snd doc)) (enumerate 0 (steps s))) (steps s)"
    by (simp add: processTaskEscalations_def StepInstance_find_def cascadeLoop_frame)
  also have "\<dots> = map (\<lambda>st. if needsEscalation now st
                 then (\<lambda>t. t\<lparr>si_escalationLevel := si_escalationLevel t + 1\<rparr>) st else st)
               (steps s)"
    by (rule fold_update_find)
  finally show ?thesis by simp
qed





lemma markOverdue_frame:
  "steps (markOverdue i t s) = (steps s)[i := t\<lparr>si_escalated := True\<rparr>]"
  "history (markOverdue i t s) = history s"
  "users (markOverdue i t s) = users s"
  "processes (markOverdue i t s) = processes s"
  by (simp_all add: markOverdue_def Let_def StepInstance_save_def Notification_create_def
        split: option.splits)

lemma markOverdueLoop_frame:
  "steps (markOverdueLoop tasks s)
     = fold (\<lambda>doc xs. xs[fst doc := (\<lambda>t. t\<lparr>si_escalated := True\<rparr>) (snd doc)]) tasks (steps s)
   \<and> history (markOverdueLoop tasks s) = history s
   \<and> users (markOverdueLoop tasks s) = users s
   \<and> processes (markOverdueLoop tasks s) = processes s"
proof (induction tasks arbitrary: s)
  case Nil
  then show ?case by simp
next
  case (Cons d tasks)
  obtain i t where d: "d = (i, t)" by (cases d)
  from Cons.IH [of "markOverdue i t s"] show ?case
    by (simp add: d markOverdue_frame)
qed

lemma checkOverdueTasks_steps:
  "steps (checkOverdueTasks now s)
     = map (\<lambda>st. if overdueUnescalated now st then st\<lparr>si_escalated := True\<rparr> else st) (steps s)"
proof -
  have "steps (checkOverdueTasks now s)
          = fold (\<lambda>doc xs. xs[fst doc := (\<lambda>t. t\<lparr>si_escalated := True\<rparr>) (snd doc)])
              (filter (\<lambda>doc. overdueUnescalated now (snd doc)) (enumerate 0 (steps s))) (steps s)"
    by (simp add: checkOverdueTasks_def StepInstance_find_def markOverdueLoop_frame)
  also have "\<dots> = map (\<lambda>st. if overdueUnescalated now st
                 then (\<lambda>t. t\<lparr>si_escalated := True\<rparr>) st else st) (steps s)"
    by (rule fold_update_find)
  finally show ?thesis by simp
qed

text \<open>The engine's escalation: nothing without a target, else only the first task.\<close>

lemma escalateLoop_no_target:
  "filter isManagerOrAdmin (users s) = [] \<Longrightarrow> escalateLoop now tasks s = (Returned, s)"
  by (induction tasks) auto

lemma escalateLoop_first_only:
  "filter isManagerOrAdmin (users s) = u # us \<Longrightarrow>
     snd (escalateLoop now ((i, t) # rest) s) = StepInstance_save i (escalateTask u now t) s
     \<and> fst (escalateLoop now ((i, t) # rest) s) \<noteq> Returned"
  by (simp add: Let_def ProcessHistory_create_def StepInstance_save_def split: option.splits)

lemma escalateOverdueTasks_closed_form:
  "escalateOverdueTasks now s =
     (case filter isManagerOrAdmin (users s) of
        [] \<Rightarrow> s
      | u # _ \<Rightarrow>
          (case StepInstance_find (overdueUnescalated now) s of
             [] \<Rightarrow> s
           | (i, t) # _ \<Rightarrow> StepInstance_save i (escalateTask u now t) s))"
proof (cases "filter isManagerOrAdmin (users s)")
  case Nil
  then show ?thesis by (simp add: escalateOverdueTasks_def escalateLoop_no_target)
next
  case (Cons u us)
  show ?thesis
  proof (cases "StepInstance_find (overdueUnescalated now) s")
    case Nil
    with Cons show ?thesis by (simp add: escalateOverdueTasks_def)
  next
    case (Cons d rest)
    obtain i t where d: "d = (i, t)" by (cases d)
    from escalateLoop_first_only [OF \<open>filter isManagerOrAdmin (users s) = u # us\<close>, of now i t rest]
    show ?thesis
      by (simp add: escalateOverdueTasks_def Cons d \<open>filter isManagerOrAdmin (users s) = u # us\<close>)
  qed
qed

lemma StepInstance_find_mem:
  "((i, t) \<in> set (StepInstance_find P s)) = (i < length (steps s) \<and> steps s ! i = t \<and> P t)"
  unfolding StepInstance_find_def by (rule find_docs_mem)



lemma stepsEvolve_refl: "stepsEvolve xs xs"
  by (auto simp: stepsEvolve_def)

lemma stepsEvolve_trans:
  assumes "stepsEvolve xs ys" "stepsEvolve ys zs"
  shows "stepsEvolve xs zs"
proof -
  have a: "length xs \<le> length zs" using assms by (simp add: stepsEvolve_def)
  have b: "escalationInv (zs ! i) \<and> si_escalationLevel (xs ! i) \<le> si_escalationLevel (zs ! i)"
    if i: "i < length xs" and inv: "escalationInv (xs ! i)" for i
  proof -
    from assms(1) i inv have y: "escalationInv (ys ! i)"
      "si_escalationLevel (xs ! i) \<le> si_escalationLevel (ys ! i)" "i < length ys"
      by (auto simp: stepsEvolve_def)
    with assms(2) have "escalationInv (zs ! i)"
      "si_escalationLevel (ys ! i) \<le> si_escalationLevel (zs ! i)"
      by (auto simp: stepsEvolve_def)
    with y show ?thesis by simp
  qed
  have c: "escalationInv (zs ! i)" if i: "length xs \<le> i" "i < length zs" for i
  proof (cases "i < length ys")
    case True
    with i assms(1) have "escalationInv (ys ! i)" by (simp add: stepsEvolve_def)
    with True assms(2) show ?thesis by (simp add: stepsEvolve_def)
  next
    case False
    with i assms(2) show ?thesis by (simp add: stepsEvolve_def)
  qed
  from a b c show ?thesis unfolding stepsEvolve_def by blast
qed

lemma stepsEvolve_map:
  "(\<And>t. escalationInv t \<Longrightarrow> escalationInv (g t) \<and> si_escalationLevel t \<le> si_escalationLevel (g t))
     \<Longrightarrow> stepsEvolve xs (map g xs)"
  by (auto simp: stepsEvolve_def)

lemma stepsEvolve_update:
  assumes "i < length xs \<Longrightarrow> escalationInv (xs ! i) \<Longrightarrow>
      escalationInv v \<and> si_escalationLevel (xs ! i) \<le> si_escalationLevel v"
  shows "stepsEvolve xs (xs[i := v])"
proof -
  have "escalationInv (xs[i := v] ! k)
        \<and> si_escalationLevel (xs ! k) \<le> si_escalationLevel (xs[i := v] ! k)"
    if k: "k < length xs" "escalationInv (xs ! k)" for k
  proof (cases "k = i")
    case True
    with k assms show ?thesis by simp
  next
    case False
    with k show ?thesis by simp
  qed
  then show ?thesis by (auto simp: stepsEvolve_def)
qed

lemma stepsEvolve_append:
  "\<forall>st \<in> set new. escalationInv st \<Longrightarrow> stepsEvolve xs (xs @ new)"
  by (auto simp: stepsEvolve_def nth_append)

lemma stepsEvolve_all:
  assumes "stepsEvolve xs ys" "\<forall>st \<in> set xs. escalationInv st"
  shows "\<forall>st \<in> set ys. escalationInv st"
proof
  fix st assume "st \<in> set ys"
  then obtain i where i: "i < length ys" "ys ! i = st" by (auto simp: in_set_conv_nth)
  show "escalationInv st"
  proof (cases "i < length xs")
    case True
    with assms(2) have "escalationInv (xs ! i)" by simp
    with True assms(1) i show ?thesis by (auto simp: stepsEvolve_def)
  next
    case False
    with assms(1) i show ?thesis by (auto simp: stepsEvolve_def)
  qed
qed

lemma built_step_inv:
  "escalationInv (autoCompleteStep sd uid now
     (setDueDate h sd now (setAssignment sd (newStepInstance pid sd))))"
  by (simp add: escalationInv_def built_step_fields)

lemma createStepInstance_evolve:
  "stepsEvolve (steps s) (steps (snd (createStepInstance pid sd uid now s)))"
proof (cases "StepInstance_invalidPaths (hoursFromNow s) sd now = []")
  case True
  then show ?thesis
    by (simp add: createStepInstance_steps stepsEvolve_append built_step_inv)
next
  case False
  then show ?thesis by (simp add: createStepInstance_invalid stepsEvolve_refl)
qed

lemma createNextSteps_evolve:
  "stepsEvolve (steps s) (steps (snd (snd (createNextSteps ids tpl pid p uid now s))))"
proof (induction ids arbitrary: p s)
  case Nil
  then show ?case by (simp add: stepsEvolve_refl)
next
  case (Cons i ids)
  show ?case
  proof (cases "find (\<lambda>sd. sd_stepId sd = i) (pt_steps tpl)")
    case None
    then show ?thesis using Cons.IH [of s p] by simp
  next
    case (Some nts)
    obtain out s1 where c: "createStepInstance pid nts uid now s = (out, s1)"
      by (cases "createStepInstance pid nts uid now s")
    have e1: "stepsEvolve (steps s) (steps s1)"
      using createStepInstance_evolve [of s pid nts uid now] c by simp
    show ?thesis
    proof (cases out)
      case (Threw e)
      with Some c e1 show ?thesis by simp
    next
      case Returned
      let ?p1 = "p\<lparr>pi_currentSteps := pi_currentSteps p @ [String_trim i]\<rparr>"
      have r: "createNextSteps (i # ids) tpl pid p uid now s
                 = createNextSteps ids tpl pid ?p1 uid now s1"
        using Some c Returned by simp
      show ?thesis unfolding r by (rule stepsEvolve_trans [OF e1 Cons.IH])
    qed
  qed
qed

lemma processStepCompletion_evolve:
  "stepsEvolve (steps s) (steps (snd (processStepCompletion st pid p uid now s)))"
proof (cases "templates s (pi_processTemplateId p)")
  case None
  then show ?thesis by (simp add: processStepCompletion_def stepsEvolve_refl)
next
  case (Some tpl)
  show ?thesis
  proof (cases "find (\<lambda>sd. sd_stepId sd = si_stepId st) (pt_steps tpl)")
    case None
    with Some show ?thesis by (simp add: processStepCompletion_def stepsEvolve_refl)
  next
    case (Some sd)
    note t = \<open>templates s (pi_processTemplateId p) = Some tpl\<close>
    show ?thesis
      using createNextSteps_evolve
        [of s "determineNextSteps sd st (si_variables st ''decision'')" tpl pid
            "p\<lparr>pi_currentSteps :=
                map String_trim
                  (filter (\<lambda>stepId. stepId \<noteq> si_stepId st) (pi_currentSteps p))\<rparr>"
            uid now]
      by (simp add: processStepCompletion_unfold [OF t Some] Let_def completeProcess_steps
            updateCompletionPercentage_frame ProcessInstance_save_def)
  qed
qed

lemma startProcess_evolve:
  "stepsEvolve (steps s) (steps (snd (startProcess pid uid now s)))"
proof (cases "processes s pid")
  case None
  then show ?thesis by (simp add: startProcess_def stepsEvolve_refl)
next
  case (Some inst)
  show ?thesis
  proof (cases "pi_status inst = Draft")
    case False
    with Some show ?thesis by (simp add: startProcess_def stepsEvolve_refl)
  next
    case True
    show ?thesis
    proof (cases "templates s (pi_processTemplateId inst)")
      case None
      with Some True show ?thesis by (simp add: startProcess_def stepsEvolve_refl)
    next
      case tpl: (Some tpl)
      show ?thesis
      proof (cases "find (\<lambda>sd. sd_stepId sd = pt_startStep tpl) (pt_steps tpl)")
        case None
        with Some True tpl show ?thesis by (simp add: startProcess_def stepsEvolve_refl)
      next
        case sd: (Some sd)
        show ?thesis
        proof (cases "StepInstance_invalidPaths (hoursFromNow s) sd now = []")
          case valid: True
          show ?thesis
            by (simp add: startProcess_draft(3) [OF Some True tpl sd valid] stepsEvolve_append
                  built_step_inv)
        next
          case False
          then show ?thesis
            by (simp add: startProcess_invalid [OF Some True tpl sd] stepsEvolve_refl)
        qed
      qed
    qed
  qed
qed

lemma completedStep_escalation:
  "si_escalated (completedStep st uid fd d now) = si_escalated st"
  "si_escalationLevel (completedStep st uid fd d now) = si_escalationLevel st"
  by (simp_all add: completedStep_def Let_def)

lemma completeStep_evolve:
  "stepsEvolve (steps s) (steps (snd (completeStep sid uid fd d now s)))"
proof (cases "StepInstance_findById sid s")
  case None
  then show ?thesis by (simp add: completeStep_def stepsEvolve_refl)
next
  case (Some st)
  then have st: "sid < length (steps s)" "steps s ! sid = st"
    by (auto simp: StepInstance_findById_def split: if_splits)
  show ?thesis
  proof (cases "processes s (si_processInstanceId st)")
    case None
    with Some show ?thesis by (simp add: completeStep_def stepsEvolve_refl)
  next
    case p: (Some p)
    show ?thesis
    proof (cases "templates s (pi_processTemplateId p)")
      case None
      with Some p show ?thesis by (simp add: completeStep_def stepsEvolve_refl)
    next
      case tpl: (Some tpl)
      show ?thesis
      proof (cases "canComplete st uid")
        case False
        with Some p tpl show ?thesis by (simp add: completeStep_def stepsEvolve_refl)
      next
        case True
        let ?st2 = "completedStep st uid fd d now"
        let ?s2 = "(StepInstance_save sid ?st2 s)
                \<lparr>history := history s @
                   [\<lparr>h_processInstanceId = si_processInstanceId st,
                     h_stepInstanceId = Some sid, h_action = ''step_completed'',
                     h_performedBy = Some uid, h_fromStatus = Some ''in_progress'',
                     h_toStatus = Some ''completed''\<rparr>]\<rparr>"
        have "stepsEvolve (steps s) ((steps s)[sid := ?st2])"
          using st
          by (intro stepsEvolve_update) (simp add: escalationInv_def completedStep_escalation)
        then have e1: "stepsEvolve (steps s) (steps ?s2)"
          by (simp add: StepInstance_save_def)
        show ?thesis
        proof (cases "find (\<lambda>sd. sd_stepId sd = si_stepId ?st2) (pt_steps tpl)")
          case None
          with Some p tpl True have "snd (completeStep sid uid fd d now s) = ?s2"
            by (simp add: completeStep_def ProcessHistory_create_def StepInstance_save_def Let_def)
          with e1 show ?thesis by simp
        next
          case sd: (Some sd)
          with Some p tpl True
          have "completeStep sid uid fd d now s
                  = processStepCompletion ?st2 (si_processInstanceId st) p uid now ?s2"
            by (simp add: completeStep_def ProcessHistory_create_def StepInstance_save_def Let_def)
          then show ?thesis
            using stepsEvolve_trans [OF e1 processStepCompletion_evolve] by simp
        qed
      qed
    qed
  qed
qed

lemma processTaskEscalations_evolve:
  "stepsEvolve (steps s) (steps (processTaskEscalations now s))"
  unfolding processTaskEscalations_steps
  by (rule stepsEvolve_map) (auto simp: escalationInv_def needsEscalation_def)

lemma checkOverdueTasks_evolve:
  "stepsEvolve (steps s) (steps (checkOverdueTasks now s))"
  unfolding checkOverdueTasks_steps
  by (rule stepsEvolve_map) (auto simp: escalationInv_def)

lemma escalateOverdueTasks_evolve:
  "stepsEvolve (steps s) (steps (escalateOverdueTasks now s))"
proof (cases "filter isManagerOrAdmin (users s)")
  case Nil
  then show ?thesis by (simp add: escalateOverdueTasks_closed_form stepsEvolve_refl)
next
  case (Cons u us)
  show ?thesis
  proof (cases "StepInstance_find (overdueUnescalated now) s")
    case Nil
    with Cons show ?thesis by (simp add: escalateOverdueTasks_closed_form stepsEvolve_refl)
  next
    case tasks: (Cons d rest)
    obtain i t where d: "d = (i, t)" by (cases d)
    have "(i, t) \<in> set (StepInstance_find (overdueUnescalated now) s)"
      by (simp add: tasks d)
    then have it: "i < length (steps s)" "steps s ! i = t" "overdueUnescalated now t"
      by (simp_all add: StepInstance_find_mem)
    have "stepsEvolve (steps s) ((steps s)[i := escalateTask u now t])"
      using it
      by (intro stepsEvolve_update)
        (auto simp: escalationInv_def escalateTask_def overdueUnescalated_def)
    with Cons tasks d show ?thesis
      by (simp add: escalateOverdueTasks_closed_form StepInstance_save_def)
  qed
qed

lemma sys_step_evolve: "sys_step s s' \<Longrightarrow> stepsEvolve (steps s) (steps s')"
proof (induction rule: sys_step.induct)
  case (step_other s' s)
  then show ?case by (auto simp: stepsEvolve_def escalationInv_def)
qed (simp_all add: startProcess_evolve completeStep_evolve escalateOverdueTasks_evolve
       checkOverdueTasks_evolve processTaskEscalations_evolve)

lemma reachable_inv: "reachable s \<Longrightarrow> \<forall>st \<in> set (steps s). escalationInv st"
proof (induction rule: reachable.induct)
  case (reachable_init s)
  then show ?case by simp
next
  case (reachable_step s s')
  from sys_step_evolve [OF reachable_step.hyps(2)] reachable_step.IH
  show ?case by (rule stepsEvolve_all)
qed


lemmas escalation_eval =
  escalateOverdueTasks_def StepInstance_find_def overdueUnescalated_def liveStatus_def
  dueBefore_def isManagerOrAdmin_def escalateTask_def StepInstance_save_def
  ProcessHistory_create_def Notification_create_def needsEscalation_def
  processTaskEscalations_def cascadeTask_def escalationNotice_def checkOverdueTasks_def
  markOverdue_def Let_def enumerate_eq_zip

lemmas escalation_data =
  overdueStore_def escalatedStore_def secondStep_def runningStore_def runningStep_def
  runningProcess_def draftStore_def draftProcess_def newStepInstance_def startDef_def
  alice_def bob_def dave_def

lemma started_steps:
  "map (\<lambda>st. (si_status st, si_dueDate st, si_escalated st, si_escalationLevel st))
     (steps startedStore) = [(Pending, Some 86401000, False, 0)]"
  by (simp add: startedStore_def engine_eval example_data)

lemma cascaded_levels:
  "map si_escalationLevel (steps cascadedStore) = [3]"
proof -
  let ?T = "100000000 :: int"
  from started_steps obtain st0 where s0: "steps startedStore = [st0]"
    and f0: "si_status st0 = Pending" "si_dueDate st0 = Some 86401000"
      "\<not> si_escalated st0" "si_escalationLevel st0 = 0"
    by (auto simp: map_eq_Cons_conv)
  let ?c0 = "checkOverdueTasks ?T startedStore"
  have c0: "steps ?c0 = [st0\<lparr>si_escalated := True\<rparr>]"
    by (subst checkOverdueTasks_steps)
      (simp add: s0 f0 overdueUnescalated_def liveStatus_def dueBefore_def)
  let ?c1 = "processTaskEscalations ?T ?c0"
  have c1: "steps ?c1 = [st0\<lparr>si_escalated := True, si_escalationLevel := 1\<rparr>]"
    by (subst processTaskEscalations_steps)
      (simp add: c0 f0 needsEscalation_def liveStatus_def dueBefore_def)
  let ?c2 = "processTaskEscalations ?T ?c1"
  have c2: "steps ?c2 = [st0\<lparr>si_escalated := True, si_escalationLevel := 2\<rparr>]"
    by (subst processTaskEscalations_steps)
      (simp add: c1 f0 needsEscalation_def liveStatus_def dueBefore_def)
  let ?c3 = "processTaskEscalations ?T ?c2"
  have c3: "steps ?c3 = [st0\<lparr>si_escalated := True, si_escalationLevel := 3\<rparr>]"
    by (subst processTaskEscalations_steps)
      (simp add: c2 f0 needsEscalation_def liveStatus_def dueBefore_def)
  let ?c4 = "processTaskEscalations ?T ?c3"
  have c4: "steps ?c4 = [st0\<lparr>si_escalated := True, si_escalationLevel := 3\<rparr>]"
    by (subst processTaskEscalations_steps) (simp add: c3 needsEscalation_def)
  let ?c5 = "processTaskEscalations ?T ?c4"
  have c5: "steps ?c5 = [st0\<lparr>si_escalated := True, si_escalationLevel := 3\<rparr>]"
    by (subst processTaskEscalations_steps) (simp add: c4 needsEscalation_def)
  show ?thesis unfolding cascadedStore_def by (simp add: c5)
qed

lemma cascaded_reachable: "reachable cascadedStore"
proof -
  have "reachable draftStore" by (rule reachable_init) (simp add: draftStore_def)
  then have "reachable startedStore"
    unfolding startedStore_def by (rule reachable_step) (rule step_startProcess)
  then have "reachable (checkOverdueTasks 100000000 startedStore)"
    by (rule reachable_step) (rule step_checkOverdueTasks)
  then have "reachable (processTaskEscalations 100000000 (checkOverdueTasks 100000000 startedStore))"
    by (rule reachable_step) (rule step_processTaskEscalations)
  then have "reachable (processTaskEscalations 100000000
      (processTaskEscalations 100000000 (checkOverdueTasks 100000000 startedStore)))"
    by (rule reachable_step) (rule step_processTaskEscalations)
  then have "reachable (processTaskEscalations 100000000 (processTaskEscalations 100000000
      (processTaskEscalations 100000000 (checkOverdueTasks 100000000 startedStore))))"
    by (rule reachable_step) (rule step_processTaskEscalations)
  then have "reachable (processTaskEscalations 100000000 (processTaskEscalations 100000000
      (processTaskEscalations 100000000 (processTaskEscalations 100000000
        (checkOverdueTasks 100000000 startedStore)))))"
    by (rule reachable_step) (rule step_processTaskEscalations)
  then show ?thesis
    unfolding cascadedStore_def by (rule reachable_step) (rule step_processTaskEscalations)
qed

text \<open>
  C5. In every database reachable through the calls of the engine, the
  engine's \<^verbatim>\<open>escalateOverdueTasks\<close>, the scheduler's overdue check and its
  escalation cascade, run any number of times at any times, every step
  instance has \<^verbatim>\<open>escalationLevel\<close> at most 3, and no step of the system lowers
  the level of a step instance. The manual \<^verbatim>\<open>escalateStep\<close> of the step
  controller is not one of these operations.
\<close>

theorem escalationLevel_monotone_and_capped:
  "reachable s \<longrightarrow>
     (\<forall>st \<in> set (steps s). si_escalationLevel st \<le> 3)
     \<and> (\<forall>s'. sys_step s s' \<longrightarrow>
           length (steps s) \<le> length (steps s')
           \<and> (\<forall>i < length (steps s).
                 si_escalationLevel (steps s ! i) \<le> si_escalationLevel (steps s' ! i)))"
proof (rule impI)
  assume r: "reachable s"
  then have inv: "\<forall>st \<in> set (steps s). escalationInv st" by (rule reachable_inv)
  have cap: "\<forall>st \<in> set (steps s). si_escalationLevel st \<le> 3"
    using inv by (simp add: escalationInv_def)
  have mono: "length (steps s) \<le> length (steps s')
           \<and> (\<forall>i < length (steps s).
                 si_escalationLevel (steps s ! i) \<le> si_escalationLevel (steps s' ! i))"
    if "sys_step s s'" for s'
  proof -
    from that have e: "stepsEvolve (steps s) (steps s')" by (rule sys_step_evolve)
    from inv have "\<forall>i < length (steps s). escalationInv (steps s ! i)" by simp
    with e show ?thesis by (simp add: stepsEvolve_def)
  qed
  from cap mono
  show "(\<forall>st \<in> set (steps s). si_escalationLevel st \<le> 3)
     \<and> (\<forall>s'. sys_step s s' \<longrightarrow>
           length (steps s) \<le> length (steps s')
           \<and> (\<forall>i < length (steps s).
                 si_escalationLevel (steps s ! i) \<le> si_escalationLevel (steps s' ! i)))"
    by blast
qed

theorem escalationLevel_monotone_and_capped_witness:
  "reachable cascadedStore
   \<and> map si_escalationLevel (steps cascadedStore) = [3]
   \<and> list_all (\<lambda>st. si_escalationLevel st \<le> 3) (steps cascadedStore)
   \<and> sys_step cascadedStore (processTaskEscalations 200000000 cascadedStore)
   \<and> si_escalationLevel (steps cascadedStore ! 0)
       \<le> si_escalationLevel (steps (processTaskEscalations 200000000 cascadedStore) ! 0)"
proof -
  have r: "reachable cascadedStore" by (rule cascaded_reachable)
  have st: "sys_step cascadedStore (processTaskEscalations 200000000 cascadedStore)"
    by (rule step_processTaskEscalations)
  have len: "0 < length (steps cascadedStore)"
    using cascaded_levels by (auto simp: map_eq_Cons_conv)
  from r st escalationLevel_monotone_and_capped [of cascadedStore]
  have cap: "\<forall>st \<in> set (steps cascadedStore). si_escalationLevel st \<le> 3"
    and mono: "\<forall>i < length (steps cascadedStore).
         si_escalationLevel (steps cascadedStore ! i)
           \<le> si_escalationLevel (steps (processTaskEscalations 200000000 cascadedStore) ! i)"
    by blast+
  from cap have cap': "list_all (\<lambda>st. si_escalationLevel st \<le> 3) (steps cascadedStore)"
    by (simp add: list_all_iff)
  from mono len
  have mono': "si_escalationLevel (steps cascadedStore ! 0)
       \<le> si_escalationLevel (steps (processTaskEscalations 200000000 cascadedStore) ! 0)"
    by blast
  from r st cascaded_levels cap' mono' show ?thesis by blast
qed

text \<open>
  C6 on the code: two step instances are overdue and not escalated, and two
  active manager/admin users exist. One run of \<^verbatim>\<open>escalateOverdueTasks\<close>
  escalates the first step instance only: after its \<^verbatim>\<open>save()\<close> the history
  document with \<^verbatim>\<open>performedBy: null\<close> fails the \<^verbatim>\<open>required\<close> validation of the
  ProcessHistory schema, the error leaves the loop and the outer \<^verbatim>\<open>catch\<close>
  swallows it. The second step instance stays unescalated at level 0, and no
  history row and no notification is written.
\<close>

theorem escalateOverdueTasks_stops_after_first_task:
  "map (overdueUnescalated 6000) (steps overdueStore) = [True, True]
   \<and> filter isManagerOrAdmin (users overdueStore) = [bob, dave]
   \<and> map si_escalated (steps (escalateOverdueTasks 6000 overdueStore)) = [True, False]
   \<and> map si_escalationLevel (steps (escalateOverdueTasks 6000 overdueStore)) = [1, 0]
   \<and> history (escalateOverdueTasks 6000 overdueStore) = []
   \<and> notifications (escalateOverdueTasks 6000 overdueStore) = []"
  by (simp add: escalation_eval escalation_data)

text \<open>
  What the engine's escalation does hold to: with a target at hand, the first
  overdue, unescalated step instance is marked escalated at level 1, with one
  more entry in its escalation history; and a step instance that is marked
  escalated is never selected, so a run changes no such step instance.
\<close>

lemma escalateOverdueTasks_first_task:
  assumes "filter isManagerOrAdmin (users s) = u # us"
    and "StepInstance_find (overdueUnescalated now) s = (i, t) # rest"
  shows "steps (escalateOverdueTasks now s) = (steps s)[i := escalateTask u now t]"
    and "si_escalated (escalateTask u now t)"
    and "si_escalationLevel (escalateTask u now t) = 1"
    and "length (si_escalationHistory (escalateTask u now t))
           = Suc (length (si_escalationHistory t))"
  using assms
  by (simp_all add: escalateOverdueTasks_closed_form StepInstance_save_def escalateTask_def)

lemma escalateOverdueTasks_skips_escalated:
  assumes "i < length (steps s)" "si_escalated (steps s ! i)"
  shows "steps (escalateOverdueTasks now s) ! i = steps s ! i"
proof (cases "filter isManagerOrAdmin (users s)")
  case Nil
  then show ?thesis by (simp add: escalateOverdueTasks_closed_form)
next
  case (Cons u us)
  show ?thesis
  proof (cases "StepInstance_find (overdueUnescalated now) s")
    case Nil
    with Cons show ?thesis by (simp add: escalateOverdueTasks_closed_form)
  next
    case tasks: (Cons d rest)
    obtain j t where d: "d = (j, t)" by (cases d)
    have "(j, t) \<in> set (StepInstance_find (overdueUnescalated now) s)"
      by (simp add: tasks d)
    then have "steps s ! j = t" "overdueUnescalated now t"
      by (simp_all add: StepInstance_find_mem)
    with assms have "j \<noteq> i" by (auto simp: overdueUnescalated_def)
    with Cons tasks d show ?thesis
      by (simp add: escalateOverdueTasks_closed_form StepInstance_save_def)
  qed
qed





end
